theory Spec2Isabelle
  imports Main "HOL-Library.Word" "HOL-Library.Multiset"
begin

unbundle bit_operations_syntax

section \<open>JavaScript values\<close>

text \<open>
  A JavaScript string is a sequence of UTF-16 code units; \<open>substring\<close> and \<open>length\<close>
  count code units.  A Node \<open>Buffer\<close> is a sequence of bytes.  \<open>str\<close> turns an ASCII
  literal of this theory into the JavaScript string with the same characters.
\<close>

type_synonym byte = "8 word"
type_synonym bytes = "byte list"
type_synonym code_unit = "16 word"
type_synonym js_string = "code_unit list"

definition str :: "string \<Rightarrow> js_string" where
  "str s = map (\<lambda>c. of_nat (of_char c)) s"

text \<open>\<open>s.substring(a, b)\<close> for \<open>a \<le> b\<close>; both indices are clamped to the length.\<close>

definition substring :: "js_string \<Rightarrow> nat \<Rightarrow> nat \<Rightarrow> js_string" where
  "substring s a b = take (b - a) (drop a s)"

text \<open>\<open>s.substring(a)\<close>: the rest of the string from index \<open>a\<close>.\<close>

definition substring_from :: "js_string \<Rightarrow> nat \<Rightarrow> js_string" where
  "substring_from s a = drop a s"

text \<open>\<open>s.includes(t)\<close>: \<open>t\<close> occurs in \<open>s\<close> as a contiguous run.\<close>

fun includes_str :: "js_string \<Rightarrow> js_string \<Rightarrow> bool" where
  "includes_str [] t = (t = [])"
| "includes_str (c # s) t = (take (length t) (c # s) = t \<or> includes_str s t)"

section \<open>Hexadecimal text: \<open>buf.toString('hex')\<close> and \<open>Buffer.from(s, 'hex')\<close>\<close>

definition hex_digit :: "nat \<Rightarrow> code_unit" where
  "hex_digit n = (if n < 10 then of_nat (48 + n) else of_nat (87 + n))"

definition hex_of_byte :: "byte \<Rightarrow> js_string" where
  "hex_of_byte b = [hex_digit (unat b div 16), hex_digit (unat b mod 16)]"

text \<open>\<open>buf.toString('hex')\<close>: two lower-case digits per byte.\<close>

definition to_hex :: "bytes \<Rightarrow> js_string" where
  "to_hex bs = concat (map hex_of_byte bs)"

text \<open>
  The value of one hexadecimal digit.  Node's decoder casts every code unit of the
  string to its low byte (\<open>static_cast<uint8_t>\<close>) and accepts \<open>0-9\<close>, \<open>a-f\<close> and
  \<open>A-F\<close> there: U+0161 is read as \<open>a\<close> (0x61).
\<close>

definition unhex :: "code_unit \<Rightarrow> nat option" where
  "unhex c =
     (let n = unat c mod 256 in
      if 48 \<le> n \<and> n \<le> 57 then Some (n - 48)
      else if 97 \<le> n \<and> n \<le> 102 then Some (n - 87)
      else if 65 \<le> n \<and> n \<le> 70 then Some (n - 55)
      else None)"

text \<open>
  \<open>Buffer.from(s, 'hex')\<close>: pairs of digits are decoded from the left; decoding stops
  at the first pair that is not two hexadecimal digits, and a trailing single
  character is dropped (Node truncates, it does not throw).
\<close>

fun from_hex :: "js_string \<Rightarrow> bytes" where
  "from_hex (a # b # rest) =
     (case unhex a of
        None \<Rightarrow> []
      | Some h \<Rightarrow>
          (case unhex b of
             None \<Rightarrow> []
           | Some l \<Rightarrow> of_nat (16 * h + l) # from_hex rest))"
| "from_hex [a] = []"
| "from_hex [] = []"

section \<open>UTF-8: the \<open>'utf8'\<close> encoding of \<open>cipher.update\<close> and \<open>decipher.update\<close>\<close>

definition is_high_surrogate :: "code_unit \<Rightarrow> bool" where
  "is_high_surrogate u \<longleftrightarrow> 0xD800 \<le> unat u \<and> unat u \<le> 0xDBFF"

definition is_low_surrogate :: "code_unit \<Rightarrow> bool" where
  "is_low_surrogate u \<longleftrightarrow> 0xDC00 \<le> unat u \<and> unat u \<le> 0xDFFF"

text \<open>
  The code points of a string as Node encodes it: a high surrogate followed by a low
  surrogate is one supplementary code point; a surrogate on its own is replaced by
  U+FFFD.
\<close>

fun code_points :: "js_string \<Rightarrow> nat list" where
  "code_points [] = []"
| "code_points [u] =
     (if is_high_surrogate u \<or> is_low_surrogate u then [0xFFFD] else [unat u])"
| "code_points (u # v # rest) =
     (if is_high_surrogate u then
        (if is_low_surrogate v
         then (0x10000 + (unat u - 0xD800) * 0x400 + (unat v - 0xDC00)) # code_points rest
         else 0xFFFD # code_points (v # rest))
      else if is_low_surrogate u then 0xFFFD # code_points (v # rest)
      else unat u # code_points (v # rest))"

definition utf8_of_code_point :: "nat \<Rightarrow> bytes" where
  "utf8_of_code_point c =
     (if c < 0x80 then [of_nat c]
      else if c < 0x800 then [of_nat (0xC0 + c div 64), of_nat (0x80 + c mod 64)]
      else if c < 0x10000 then
        [of_nat (0xE0 + c div 4096), of_nat (0x80 + c div 64 mod 64), of_nat (0x80 + c mod 64)]
      else
        [of_nat (0xF0 + c div 262144), of_nat (0x80 + c div 4096 mod 64),
         of_nat (0x80 + c div 64 mod 64), of_nat (0x80 + c mod 64)])"

text \<open>\<open>Buffer.from(s, 'utf8')\<close>, the bytes \<open>cipher.update(s, 'utf8')\<close> encrypts.\<close>

definition utf8_encode :: "js_string \<Rightarrow> bytes" where
  "utf8_encode s = concat (map utf8_of_code_point (code_points s))"

text \<open>
  The UTF-8 decoder (the decoder of the Encoding Standard): \<open>cp\<close> is the code point
  collected so far, \<open>need\<close> the number of continuation bytes still expected, \<open>lo\<close> and
  \<open>hi\<close> the range allowed for the next continuation byte.  A byte that cannot
  continue the sequence yields U+FFFD and is then read again as a first byte.
\<close>

function utf8_points :: "nat \<Rightarrow> nat \<Rightarrow> nat \<Rightarrow> nat \<Rightarrow> bytes \<Rightarrow> nat list" where
  "utf8_points cp need lo hi [] = (if need = 0 then [] else [0xFFFD])"
| "utf8_points cp need lo hi (b # bs) =
     (let n = unat b in
      if need = 0 then
        (if n < 0x80 then n # utf8_points 0 0 0x80 0xBF bs
         else if 0xC2 \<le> n \<and> n \<le> 0xDF then utf8_points (n mod 32) 1 0x80 0xBF bs
         else if 0xE0 \<le> n \<and> n \<le> 0xEF then
           utf8_points (n mod 16) 2 (if n = 0xE0 then 0xA0 else 0x80)
             (if n = 0xED then 0x9F else 0xBF) bs
         else if 0xF0 \<le> n \<and> n \<le> 0xF4 then
           utf8_points (n mod 8) 3 (if n = 0xF0 then 0x90 else 0x80)
             (if n = 0xF4 then 0x8F else 0xBF) bs
         else 0xFFFD # utf8_points 0 0 0x80 0xBF bs)
      else if n < lo \<or> hi < n then 0xFFFD # utf8_points 0 0 0x80 0xBF (b # bs)
      else if need = 1 then (cp * 64 + n mod 64) # utf8_points 0 0 0x80 0xBF bs
      else utf8_points (cp * 64 + n mod 64) (need - 1) 0x80 0xBF bs)"
  by pat_completeness auto
termination
  by (relation "measure (\<lambda>(cp, need, lo, hi, bs). 2 * length bs + (if need = 0 then 0 else 1))")
    auto

text \<open>A code point as UTF-16 code units: a surrogate pair above U+FFFF.\<close>

definition utf16_of_code_point :: "nat \<Rightarrow> js_string" where
  "utf16_of_code_point c =
     (if c < 0x10000 then [of_nat c]
      else [of_nat (0xD800 + (c - 0x10000) div 0x400), of_nat (0xDC00 + (c - 0x10000) mod 0x400)])"

text \<open>\<open>buf.toString('utf8')\<close>, the string \<open>decipher.update(..., 'utf8')\<close> returns.\<close>

definition utf8_decode :: "bytes \<Rightarrow> js_string" where
  "utf8_decode bs = concat (map utf16_of_code_point (utf8_points 0 0 0x80 0xBF bs))"

text \<open>A string is well formed when it has no surrogate outside a surrogate pair.\<close>

fun well_formed :: "js_string \<Rightarrow> bool" where
  "well_formed [] = True"
| "well_formed [u] = (\<not> is_high_surrogate u \<and> \<not> is_low_surrogate u)"
| "well_formed (u # v # rest) =
     (if is_high_surrogate u then is_low_surrogate v \<and> well_formed rest
      else \<not> is_low_surrogate u \<and> well_formed (v # rest))"

text \<open>
  \<open>s.toWellFormed()\<close>: the string with every surrogate outside a pair replaced by
  U+FFFD.  It is not called by the source; it names what encoding to UTF-8 and
  decoding again does to a string.
\<close>

fun to_well_formed :: "js_string \<Rightarrow> js_string" where
  "to_well_formed [] = []"
| "to_well_formed [u] = (if is_high_surrogate u \<or> is_low_surrogate u then [0xFFFD] else [u])"
| "to_well_formed (u # v # rest) =
     (if is_high_surrogate u then
        (if is_low_surrogate v then u # v # to_well_formed rest
         else 0xFFFD # to_well_formed (v # rest))
      else if is_low_surrogate u then 0xFFFD # to_well_formed (v # rest)
      else u # to_well_formed (v # rest))"

definition scalar_value :: "nat \<Rightarrow> bool" where
  "scalar_value c \<longleftrightarrow> c < 0x110000 \<and> (c < 0xD800 \<or> 0xDFFF < c)"

section \<open>The cipher: \<open>aes-256-gcm\<close> of Node's \<open>crypto\<close> module\<close>

text \<open>
  AES-256-GCM is not code of the repository.  Its structure is fixed by the mode
  (NIST SP 800-38D): the ciphertext is the plaintext XORed with a keystream that
  the key and the nonce determine, and the tag is a 128-bit value that the key, the
  nonce and the ciphertext determine.  The two functions are parameters of the model;
  every theorem below holds for all of them.
\<close>

record aes_gcm =
  gcm_keystream :: "bytes \<Rightarrow> bytes \<Rightarrow> nat \<Rightarrow> byte"
  gcm_tag :: "bytes \<Rightarrow> bytes \<Rightarrow> bytes \<Rightarrow> 128 word"

fun xor_stream :: "(nat \<Rightarrow> byte) \<Rightarrow> nat \<Rightarrow> bytes \<Rightarrow> bytes" where
  "xor_stream ks i [] = []"
| "xor_stream ks i (x # xs) = (x XOR ks i) # xor_stream ks (Suc i) xs"

text \<open>\<open>cipher.update\<close> and \<open>decipher.update\<close> on the whole input: counter mode.\<close>

definition gcm_crypt :: "aes_gcm \<Rightarrow> bytes \<Rightarrow> bytes \<Rightarrow> bytes \<Rightarrow> bytes" where
  "gcm_crypt G key iv data = xor_stream (gcm_keystream G key iv) 0 data"

text \<open>The 16 bytes of a tag, most significant first (\<open>cipher.getAuthTag()\<close>).\<close>

definition tag_bytes :: "128 word \<Rightarrow> bytes" where
  "tag_bytes t = map (\<lambda>i. ucast (drop_bit (8 * (15 - i)) t)) [0..<16]"

datatype crypto_error =
    Invalid_iv
  | Invalid_key_length
  | Invalid_auth_tag_length nat
  | Invalid_hex_length nat
  | Unable_to_authenticate

text \<open>
  \<open>crypto.createCipheriv\<close> and \<open>crypto.createDecipheriv\<close> for \<open>aes-256-gcm\<close>: an
  empty nonce is refused, any other length is accepted; the key must be 32 bytes.
\<close>

definition create_cipheriv :: "bytes \<Rightarrow> bytes \<Rightarrow> crypto_error option" where
  "create_cipheriv key iv =
     (if iv = [] then Some Invalid_iv
      else if length key \<noteq> 32 then Some Invalid_key_length
      else None)"

text \<open>
  \<open>decipher.setAuthTag\<close> without an \<open>authTagLength\<close> option accepts the tag lengths
  that GCM allows and throws on every other length.
\<close>

definition valid_gcm_tag_length :: "nat \<Rightarrow> bool" where
  "valid_gcm_tag_length n \<longleftrightarrow> n = 4 \<or> n = 8 \<or> (12 \<le> n \<and> n \<le> 16)"

fun decimal :: "nat \<Rightarrow> js_string" where
  "decimal n = (if n < 10 then [of_nat (48 + n)] else decimal (n div 10) @ [of_nat (48 + n mod 10)])"

text \<open>The \<open>message\<close> of the error that Node throws.\<close>

fun crypto_message :: "crypto_error \<Rightarrow> js_string" where
  "crypto_message Invalid_iv = str ''Invalid initialization vector''"
| "crypto_message Invalid_key_length = str ''Invalid key length''"
| "crypto_message (Invalid_auth_tag_length n) =
     str ''Invalid authentication tag length: '' @ decimal n"
| "crypto_message (Invalid_hex_length n) =
     str ''The argument 'encoding' is invalid for data of length '' @ decimal n @
     str ''. Received 'hex'' @ [0x27]"
| "crypto_message Unable_to_authenticate =
     str ''Unsupported state or unable to authenticate data''"

section \<open>The codec: \<open>encryptionKey\<close>, \<open>encrypt\<close>, \<open>decrypt\<close>\<close>

definition ALGORITHM :: string where
  "ALGORITHM = ''aes-256-gcm''"

definition IV_LENGTH :: nat where
  "IV_LENGTH = 16"

definition AUTH_TAG_LENGTH :: nat where
  "AUTH_TAG_LENGTH = 16"

datatype init_error = Key_not_set | Key_length_not_32

text \<open>
  The module-level statements
  \<^verbatim>\<open>const encryptionKey = Buffer.from(process.env.ENCRYPTION_KEY!, 'base64');
if (encryptionKey.length !== 32) { throw new Error(...) }\<close>
  \<open>base64\<close> is Node's base64 decoder, a parameter here; \<open>env_key\<close> is the value of
  the environment variable, \<open>None\<close> when it is not set (\<open>Buffer.from(undefined, ...)\<close>
  throws a \<open>TypeError\<close>).  A module that throws while it loads never serves a request.
\<close>

definition encryptionKey :: "(js_string \<Rightarrow> bytes) \<Rightarrow> js_string option \<Rightarrow> init_error + bytes" where
  "encryptionKey base64 env_key =
     (case env_key of
        None \<Rightarrow> Inl Key_not_set
      | Some s \<Rightarrow> if length (base64 s) \<noteq> 32 then Inl Key_length_not_32 else Inr (base64 s))"

text \<open>
  \<open>encrypt\<close> of the exchange-token route.  \<open>iv\<close> is the value that
  \<open>crypto.randomBytes(IV_LENGTH)\<close> returned in this call.  An error is the exception
  that \<open>createCipheriv\<close> throws.
\<close>

definition encrypt :: "aes_gcm \<Rightarrow> bytes \<Rightarrow> bytes \<Rightarrow> js_string \<Rightarrow> crypto_error + js_string" where
  "encrypt G key iv plain =
     (case create_cipheriv key iv of
        Some e \<Rightarrow> Inl e
      | None \<Rightarrow>
          (let enc = gcm_crypt G key iv (utf8_encode plain);
               authTag = tag_bytes (gcm_tag G key iv enc)
           in Inr (to_hex (iv @ authTag @ enc))))"

text \<open>
  \<open>encrypt\<close> of the earlier exchange-token handler: the three parts are turned into
  hexadecimal text one by one and the texts are concatenated.
\<close>

definition encrypt_hex_parts ::
  "aes_gcm \<Rightarrow> bytes \<Rightarrow> bytes \<Rightarrow> js_string \<Rightarrow> crypto_error + js_string" where
  "encrypt_hex_parts G key iv text =
     (case create_cipheriv key iv of
        Some e \<Rightarrow> Inl e
      | None \<Rightarrow>
          (let encrypted = to_hex (gcm_crypt G key iv (utf8_encode text));
               authTag = tag_bytes (gcm_tag G key iv (gcm_crypt G key iv (utf8_encode text)))
           in Inr (to_hex iv @ to_hex authTag @ encrypted)))"

text \<open>
  \<open>decrypt\<close>.  Every exception inside the \<open>try\<close> block is caught and thrown again as
  \<open>Error('Decryption failed: ' + message)\<close>; the result \<open>Inl e\<close> stands for that error,
  \<open>e\<close> being what Node threw.  \<open>decipher.update\<close> refuses hexadecimal text of odd
  length.  \<open>decipher.final\<close> compares the tag it was given with the leading bytes of
  the tag of the ciphertext, and the plaintext that \<open>decipher.update\<close> produced is
  dropped when the comparison fails.
\<close>

definition decrypt :: "aes_gcm \<Rightarrow> bytes \<Rightarrow> js_string \<Rightarrow> crypto_error + js_string" where
  "decrypt G key encryptedText =
     (let iv = from_hex (substring encryptedText 0 (IV_LENGTH * 2));
          authTag = from_hex (substring encryptedText (IV_LENGTH * 2)
                      ((IV_LENGTH + AUTH_TAG_LENGTH) * 2));
          encrypted = substring_from encryptedText ((IV_LENGTH + AUTH_TAG_LENGTH) * 2)
      in case create_cipheriv key iv of
           Some e \<Rightarrow> Inl e
         | None \<Rightarrow>
             if \<not> valid_gcm_tag_length (length authTag)
             then Inl (Invalid_auth_tag_length (length authTag))
             else if odd (length encrypted)
             then Inl (Invalid_hex_length (length encrypted))
             else
               (let ciphertext = from_hex encrypted;
                    decrypted = utf8_decode (gcm_crypt G key iv ciphertext)
                in if take (length authTag) (tag_bytes (gcm_tag G key iv ciphertext)) = authTag
                   then Inr decrypted
                   else Inl Unable_to_authenticate))"

definition decryption_failed :: "crypto_error \<Rightarrow> js_string" where
  "decryption_failed e = str ''Decryption failed: '' @ crypto_message e"

section \<open>The table \<open>plaid_items\<close>\<close>

text \<open>
  One row per linked item.  The column \<open>item_id\<close> carries a unique constraint (the
  conflict target of the upsert).  \<open>db_failure\<close> stands for the store being out of
  order: when it is set, every statement returns that error and changes nothing.
\<close>

record plaid_item =
  item_id :: js_string
  user_id :: js_string
  access_token :: js_string
  created_at :: int

datatype db_error = Db_error js_string

fun db_message :: "db_error \<Rightarrow> js_string" where
  "db_message (Db_error m) = m"

record database =
  plaid_items :: "plaid_item list"
  db_failure :: "db_error option"

definition unique_item_ids :: "database \<Rightarrow> bool" where
  "unique_item_ids db \<longleftrightarrow> distinct (map item_id (plaid_items db))"

text \<open>
  The error of \<open>.single()\<close> when the query does not return exactly one row.
\<close>

definition no_single_row :: db_error where
  "no_single_row = Db_error (str ''JSON object requested, multiple (or no) rows returned'')"

text \<open>
  \<^verbatim>\<open>.from('plaid_items').select('access_token').eq('item_id', item_id).eq('user_id', userId).single()\<close>
  \<open>.single()\<close> returns the row when the query yields exactly one, and an error (with
  no data) when it yields none or several; \<open>.maybeSingle()\<close> is the variant that
  returns no data and no error for an empty result.
\<close>

definition select_token_single :: "database \<Rightarrow> js_string \<Rightarrow> js_string \<Rightarrow> db_error + js_string" where
  "select_token_single db iid uid =
     (case db_failure db of
        Some e \<Rightarrow> Inl e
      | None \<Rightarrow>
          (case filter (\<lambda>r. item_id r = iid \<and> user_id r = uid) (plaid_items db) of
             [r] \<Rightarrow> Inr (access_token r)
           | _ \<Rightarrow> Inl no_single_row))"

text \<open>
  \<^verbatim>\<open>.from('plaid_items').select('item_id').eq('user_id', userId).order('created_at', { ascending: false }).limit(1)\<close>
  The result has at most one row; with \<open>.maybeSingle()\<close> at the end, the empty result
  is the data \<open>null\<close>.
\<close>

definition select_latest :: "database \<Rightarrow> js_string \<Rightarrow> db_error + plaid_item list" where
  "select_latest db uid =
     (case db_failure db of
        Some e \<Rightarrow> Inl e
      | None \<Rightarrow>
          Inr (take 1 (sort_key (\<lambda>r. - created_at r)
                 (filter (\<lambda>r. user_id r = uid) (plaid_items db)))))"

definition duplicate_key :: db_error where
  "duplicate_key = Db_error (str ''duplicate key value violates unique constraint'')"

text \<open>
  \<^verbatim>\<open>.from('plaid_items').insert([{ user_id, item_id, access_token }])\<close>
  A row whose \<open>item_id\<close> is already in the table violates the unique constraint.
\<close>

definition insert_item ::
  "database \<Rightarrow> int \<Rightarrow> js_string \<Rightarrow> js_string \<Rightarrow> js_string \<Rightarrow> db_error option \<times> database" where
  "insert_item db now uid iid token =
     (case db_failure db of
        Some e \<Rightarrow> (Some e, db)
      | None \<Rightarrow>
          if list_ex (\<lambda>r. item_id r = iid) (plaid_items db) then (Some duplicate_key, db)
          else (None, db\<lparr>plaid_items := plaid_items db @
                  [\<lparr>item_id = iid, user_id = uid, access_token = token, created_at = now\<rparr>]\<rparr>))"

text \<open>
  \<^verbatim>\<open>.from('plaid_items').upsert({ user_id, item_id, access_token }, { onConflict: 'item_id' })\<close>
  A row with the same \<open>item_id\<close> gets the columns of the payload; the others stay.
\<close>

definition upsert_item ::
  "database \<Rightarrow> int \<Rightarrow> js_string \<Rightarrow> js_string \<Rightarrow> js_string \<Rightarrow> db_error option \<times> database" where
  "upsert_item db now uid iid token =
     (case db_failure db of
        Some e \<Rightarrow> (Some e, db)
      | None \<Rightarrow>
          if list_ex (\<lambda>r. item_id r = iid) (plaid_items db)
          then (None, db\<lparr>plaid_items :=
                  map (\<lambda>r. if item_id r = iid then r\<lparr>user_id := uid, access_token := token\<rparr> else r)
                    (plaid_items db)\<rparr>)
          else (None, db\<lparr>plaid_items := plaid_items db @
                  [\<lparr>item_id = iid, user_id = uid, access_token = token, created_at = now\<rparr>]\<rparr>))"

section \<open>Requests, responses and the Plaid client\<close>

text \<open>
  \<open>'j\<close> is the type of the JSON values that Plaid returns (a transaction, an account,
  the item, the data of an error); the handlers never look inside one, except for the
  date of a transaction.
\<close>

datatype 'j thrown =
    Js_error js_string
  | Plaid_error js_string "nat option" 'j "js_string option"

text \<open>
  What a \<open>catch\<close> block can receive: an \<open>Error\<close> with its message, or the error of the
  Plaid client, whose \<open>response.data\<close> has an \<open>error_code\<close>: its message, its
  \<open>response.status\<close> when that is a number, its \<open>response.data\<close> and the
  \<open>error_message\<close> in it.
\<close>

fun thrown_message :: "'j thrown \<Rightarrow> js_string" where
  "thrown_message (Js_error m) = m"
| "thrown_message (Plaid_error m status data error_message) = m"

datatype 'j body =
    Failure js_string
  | Failure_details js_string js_string
  | Failure_data js_string 'j
  | Transactions_accounts_item "'j list" "'j list" 'j
  | Transactions_only "'j list"
  | Item_id "js_string option"
  | Stored js_string js_string
  | Done js_string

text \<open>
  The JSON bodies of the handlers: \<open>{success: false, message}\<close>, the same with
  \<open>details\<close> (a string, or the data of a Plaid error), \<open>{success: true, transactions,
  accounts, item}\<close>, \<open>{success: true, transactions}\<close>, \<open>{success: true, item_id}\<close>
  (\<open>None\<close> is \<open>null\<close>), \<open>{success: true, item_id, message}\<close> and \<open>{success: true,
  message}\<close>.  A body has no other field.
\<close>

fun success :: "'j body \<Rightarrow> bool" where
  "success (Failure m) = False"
| "success (Failure_details m d) = False"
| "success (Failure_data m d) = False"
| "success b = True"

datatype 'j response = Response nat "'j body"

record 'j transactions_get_response =
  transactions :: "'j list"
  accounts :: "'j list"
  item :: 'j
  total_transactions :: nat
  request_id :: js_string

text \<open>
  The request of \<open>transactionsGet\<close>.  A date is the number of its day (days since
  1970-01-01); the source sends it formatted as \<open>YYYY-MM-DD\<close>.
\<close>

record transactions_get_request =
  request_access_token :: js_string
  start_date :: int
  end_date :: int
  options_count :: nat
  options_offset :: nat

text \<open>
  The body of a POST to get-transactions: the handler reads \<open>item_id\<close> and nothing
  else, whatever else the caller sends (the extension of the record).
\<close>

record request_body =
  body_item_id :: "js_string option"

text \<open>
  The request of \<open>transactionsSync\<close> as the refresh handler builds it: the access
  token and a cursor, and no other field.
\<close>

record transactions_sync_request =
  sync_access_token :: js_string
  cursor :: js_string

datatype event =
    Decrypt_called js_string
  | Transactions_get_called transactions_get_request
  | Item_get_called js_string
  | Transactions_sync_called transactions_sync_request

text \<open>\<open>x || fallback\<close> on an optional string: \<open>undefined\<close> and \<open>''\<close> are falsy.\<close>

definition or_else :: "js_string option \<Rightarrow> js_string \<Rightarrow> js_string" where
  "or_else x fallback = (case x of None \<Rightarrow> fallback | Some s \<Rightarrow> if s = [] then fallback else s)"

section \<open>POST /api/plaid/get-transactions\<close>

text \<open>The outer \<open>catch\<close> block of the handler.\<close>

definition get_transactions_catch :: "'j thrown \<Rightarrow> 'j response" where
  "get_transactions_catch error =
     (case error of
        Plaid_error m status data error_message \<Rightarrow>
          Response (case status of Some n \<Rightarrow> n | None \<Rightarrow> 500)
            (Failure_details (str ''Plaid API error'')
               (or_else error_message (str ''Unknown Plaid error'')))
      | Js_error message \<Rightarrow>
          if includes_str message (str ''Database error'')
          then Response 500 (Failure message)
          else Response 500 (Failure_details (str ''Internal Server Error'') message))"

text \<open>
  The handler.  \<open>user\<close> is the user id of the session (\<open>None\<close>: no user, or an error
  of \<open>getUser\<close>); \<open>today_start\<close> and \<open>today_end\<close> are the local dates that the two
  calls of \<open>dayjs()\<close> read; \<open>transactionsGet\<close> is the Plaid client.  The result is the
  response and, in order, the calls of \<open>decrypt\<close> and of the Plaid client that the
  handler made.
\<close>

definition get_transactions_POST ::
  "aes_gcm \<Rightarrow> bytes \<Rightarrow> (transactions_get_request \<Rightarrow> 'j thrown + 'j transactions_get_response)
   \<Rightarrow> int \<Rightarrow> int \<Rightarrow> js_string option \<Rightarrow> 'a request_body_scheme \<Rightarrow> database
   \<Rightarrow> 'j response \<times> event list" where
  "get_transactions_POST G key transactionsGet today_start today_end user body db =
     (case user of
        None \<Rightarrow> (Response 401 (Failure (str ''Unauthorized'')), [])
      | Some userId \<Rightarrow>
          (case body_item_id body of
             None \<Rightarrow> (Response 400 (Failure (str ''Missing item_id'')), [])
           | Some iid \<Rightarrow>
               if iid = [] then (Response 400 (Failure (str ''Missing item_id'')), [])
               else
                 (case select_token_single db iid userId of
                    Inl dbError \<Rightarrow>
                      (get_transactions_catch
                         (Js_error (str ''Database error fetching token: '' @ db_message dbError)),
                       [])
                  | Inr encryptedAccessToken \<Rightarrow>
                      if encryptedAccessToken = []
                      then (Response 404 (Failure (str ''Plaid item not found for this user.'')), [])
                      else
                        (case decrypt G key encryptedAccessToken of
                           Inl e \<Rightarrow>
                             (Response 500
                                (Failure (str ''Failed to process access token: '' @ decryption_failed e)),
                              [Decrypt_called encryptedAccessToken])
                         | Inr accessToken \<Rightarrow>
                             (let transactionsRequest =
                                    \<lparr>request_access_token = accessToken,
                                     start_date = today_start - 30,
                                     end_date = today_end,
                                     options_count = 500,
                                     options_offset = 0\<rparr>;
                                  calls = [Decrypt_called encryptedAccessToken,
                                           Transactions_get_called transactionsRequest]
                              in case transactionsGet transactionsRequest of
                                   Inl error \<Rightarrow> (get_transactions_catch error, calls)
                                 | Inr response \<Rightarrow>
                                     (Response 200
                                        (Transactions_accounts_item (transactions response)
                                           (accounts response) (item response)),
                                      calls))))))"

section \<open>GET of the transactions route\<close>

text \<open>
  \<open>fetchPlaidTransactions\<close> is imported from \<open>@/lib/plaid/server\<close>, which is not among
  the sources: it is a parameter, returning the transactions, \<open>None\<close> for a falsy
  result, or what it threw.  \<open>getTime t\<close> is \<open>new Date(t.date).getTime()\<close>.  The copy of
  the list is sorted with the comparator \<open>getTime b - getTime a\<close>; \<open>Array.prototype.sort\<close>
  is stable.
\<close>

definition sortedTransactions :: "('j \<Rightarrow> int) \<Rightarrow> 'j list \<Rightarrow> 'j list" where
  "sortedTransactions getTime txs = sort_key (\<lambda>t. - getTime t) txs"

definition transactions_GET ::
  "('j \<Rightarrow> int) \<Rightarrow> (js_string \<Rightarrow> js_string \<Rightarrow> 'j thrown + 'j list option)
   \<Rightarrow> js_string option \<Rightarrow> database \<Rightarrow> 'j response" where
  "transactions_GET getTime fetchPlaidTransactions session db =
     (case session of
        None \<Rightarrow> Response 401 (Failure (str ''Unauthorized''))
      | Some userId \<Rightarrow>
          (case select_latest db userId of
             Inl itemError \<Rightarrow> Response 500 (Failure (str ''Error fetching Plaid connection''))
           | Inr rows \<Rightarrow>
               (case rows of
                  [] \<Rightarrow> Response 404 (Failure (str ''No Plaid account connected''))
                | itemData # _ \<Rightarrow>
                    if item_id itemData = []
                    then Response 404 (Failure (str ''No Plaid account connected''))
                    else
                      (case fetchPlaidTransactions userId (item_id itemData) of
                         Inl error \<Rightarrow> Response 500 (Failure (thrown_message error))
                       | Inr None \<Rightarrow> Response 404 (Failure (str ''No transactions found''))
                       | Inr (Some txs) \<Rightarrow>
                           Response 200
                             (Transactions_only (sortedTransactions getTime txs))))))"

section \<open>GET /api/user/plaid-items\<close>

definition plaid_items_GET :: "js_string option \<Rightarrow> database \<Rightarrow> 'j response" where
  "plaid_items_GET user db =
     (case user of
        None \<Rightarrow> Response 401 (Failure (str ''Unauthorized''))
      | Some userId \<Rightarrow>
          (case select_latest db userId of
             Inl dbError \<Rightarrow>
               Response 500
                 (Failure_details (str ''Internal Server Error fetching Plaid item ID'')
                    (str ''Database error fetching Plaid item: '' @ db_message dbError))
           | Inr itemData \<Rightarrow>
               Response 200
                 (Item_id (case itemData of [] \<Rightarrow> None | r # _ \<Rightarrow> Some (item_id r)))))"

section \<open>POST of the refresh route\<close>

text \<open>
  The handler reads the latest row of the user with
  \<^verbatim>\<open>.select('item_id, access_token').eq('user_id', userId).order('created_at', { ascending: false }).limit(1).maybeSingle()\<close>
  and passes the stored \<open>access_token\<close> to \<open>itemGet\<close> and to \<open>transactionsSync\<close>.  The
  \<open>startDate\<close> and \<open>endDate\<close> that it computes are not used.  Every exception is
  answered with status 500 and the message of the error.  The result is the response
  and, in order, the calls of the Plaid client that the handler made.
\<close>

definition refresh_POST ::
  "(js_string \<Rightarrow> 'j thrown + 'r) \<Rightarrow> (transactions_sync_request \<Rightarrow> 'j thrown + 's)
   \<Rightarrow> js_string option \<Rightarrow> database \<Rightarrow> 'j response \<times> event list" where
  "refresh_POST itemGet transactionsSync session db =
     (case session of
        None \<Rightarrow> (Response 401 (Failure (str ''Unauthorized'')), [])
      | Some userId \<Rightarrow>
          (case select_latest db userId of
             Inl itemError \<Rightarrow> (Response 500 (Failure (str ''Error fetching Plaid connection'')), [])
           | Inr rows \<Rightarrow>
               (case rows of
                  [] \<Rightarrow> (Response 404 (Failure (str ''No Plaid account connected'')), [])
                | itemData # _ \<Rightarrow>
                    if item_id itemData = [] \<or> access_token itemData = []
                    then (Response 404 (Failure (str ''No Plaid account connected'')), [])
                    else
                      (case itemGet (access_token itemData) of
                         Inl error \<Rightarrow>
                           (Response 500 (Failure (thrown_message error)),
                            [Item_get_called (access_token itemData)])
                       | Inr refreshResponse \<Rightarrow>
                           (let request = \<lparr>sync_access_token = access_token itemData,
                                           cursor = str ''latest''\<rparr>;
                                calls = [Item_get_called (access_token itemData),
                                         Transactions_sync_called request]
                            in case transactionsSync request of
                                 Inl error \<Rightarrow> (Response 500 (Failure (thrown_message error)), calls)
                               | Inr synced \<Rightarrow>
                                   (Response 200 (Done (str ''Transactions synced successfully'')),
                                    calls))))))"

section \<open>POST /api/plaid/exchange-token\<close>

definition exchange_token_catch :: "'j thrown \<Rightarrow> 'j response" where
  "exchange_token_catch err =
     (case err of
        Plaid_error m status data error_message \<Rightarrow>
          Response (case status of Some n \<Rightarrow> if n = 0 then 500 else n | None \<Rightarrow> 500)
            (Failure_data (str ''Plaid error'') data)
      | Js_error message \<Rightarrow> Response 500 (Failure message))"

text \<open>
  The handler.  \<open>itemPublicTokenExchange\<close> is the Plaid client, returning the access
  token and the item id; \<open>iv\<close> is what \<open>crypto.randomBytes(IV_LENGTH)\<close> returns in this
  request and \<open>now\<close> the time at which the store fills \<open>created_at\<close> of a new row.  The
  result is the response and the store afterwards.
\<close>

definition exchange_token_POST ::
  "aes_gcm \<Rightarrow> bytes \<Rightarrow> (js_string \<Rightarrow> 'j thrown + js_string \<times> js_string) \<Rightarrow> bytes \<Rightarrow> int
   \<Rightarrow> js_string option \<Rightarrow> js_string option \<Rightarrow> database \<Rightarrow> 'j response \<times> database" where
  "exchange_token_POST G key itemPublicTokenExchange iv now user public_token db =
     (case user of
        None \<Rightarrow> (Response 401 (Failure (str ''Unauthorized'')), db)
      | Some userId \<Rightarrow>
          if or_else public_token [] = []
          then (Response 400 (Failure (str ''Missing public_token'')), db)
          else
            (case itemPublicTokenExchange (or_else public_token []) of
               Inl err \<Rightarrow> (exchange_token_catch err, db)
             | Inr (accessToken, itemId) \<Rightarrow>
                 (case encrypt G key iv accessToken of
                    Inl e \<Rightarrow> (exchange_token_catch (Js_error (crypto_message e)), db)
                  | Inr encrypted \<Rightarrow>
                      (case upsert_item db now userId itemId encrypted of
                         (Some dbError, db') \<Rightarrow>
                           (exchange_token_catch
                              (Js_error (str ''Database error saving Plaid item: '' @ db_message dbError)),
                            db')
                       | (None, db') \<Rightarrow>
                           (Response 200 (Stored itemId (str ''Stored successfully'')), db')))))"

text \<open>
  The earlier handler of the same route: the user id comes with the body, the cipher
  text is built by \<open>encrypt_hex_parts\<close> and the row is written with \<open>insert\<close>.
\<close>

definition exchange_token_insert_catch :: "'j thrown \<Rightarrow> 'j response" where
  "exchange_token_insert_catch error =
     (case error of
        Plaid_error m status data error_message \<Rightarrow>
          Response (case status of Some n \<Rightarrow> if n = 0 then 500 else n | None \<Rightarrow> 500)
            (Failure_details (str ''Plaid API error'')
               (or_else error_message (str ''Unknown Plaid error'')))
      | Js_error message \<Rightarrow>
          if includes_str message (str ''Database error'')
          then Response 500 (Failure (str ''Database error storing token.''))
          else if includes_str message (str ''encryption'')
          then Response 500 (Failure (str ''Encryption error.''))
          else Response 500
                 (Failure_details (str ''Internal Server Error'')
                    (or_else (Some message) (str ''An unexpected error occurred''))))"

definition exchange_token_insert_POST ::
  "aes_gcm \<Rightarrow> bytes \<Rightarrow> (js_string \<Rightarrow> 'j thrown + js_string \<times> js_string) \<Rightarrow> bytes \<Rightarrow> int
   \<Rightarrow> js_string option \<Rightarrow> js_string option \<Rightarrow> database \<Rightarrow> 'j response \<times> database" where
  "exchange_token_insert_POST G key itemPublicTokenExchange iv now public_token user_id_field db =
     (if or_else public_token [] = []
      then (Response 400 (Failure (str ''Missing public_token'')), db)
      else if or_else user_id_field [] = []
      then (Response 400 (Failure (str ''Missing user identifier'')), db)
      else
        (case itemPublicTokenExchange (or_else public_token []) of
           Inl error \<Rightarrow> (exchange_token_insert_catch error, db)
         | Inr (accessToken, itemId) \<Rightarrow>
             (case encrypt_hex_parts G key iv accessToken of
                Inl e \<Rightarrow> (exchange_token_insert_catch (Js_error (crypto_message e)), db)
              | Inr encrypted_access_token \<Rightarrow>
                  (case insert_item db now (or_else user_id_field []) itemId encrypted_access_token of
                     (Some dbError, db') \<Rightarrow>
                       (exchange_token_insert_catch
                          (Js_error (str ''Database error saving Plaid item: '' @ db_message dbError)),
                        db')
                   | (None, db') \<Rightarrow>
                       (Response 200 (Done (str ''Token exchanged and stored successfully'')),
                        db')))))"

text \<open>A cipher to run the model on: any two functions will do.\<close>

definition demo_gcm :: aes_gcm where
  "demo_gcm =
     \<lparr>gcm_keystream = (\<lambda>key iv i. sum_list key + sum_list iv + of_nat i + 1),
      gcm_tag = (\<lambda>key iv ct.
        (ucast (sum_list key + sum_list iv + sum_list ct) + 7) * 0x0123456789ABCDEF0123456789ABCDEF)\<rparr>"

definition demo_key :: bytes where
  "demo_key = replicate 32 1"

definition demo_iv :: bytes where
  "demo_iv = [0xAA, 0xAA, 0xAA, 0xAA, 0xAA, 0xAA, 0xAA, 0xAA,
              0xAA, 0xAA, 0xAA, 0xAA, 0xAA, 0xAA, 0xAA, 0xAA]"

definition demo_plaid :: "transactions_get_request \<Rightarrow> int thrown + int transactions_get_response" where
  "demo_plaid request =
     Inr \<lparr>transactions = take (options_count request) [1, 2], accounts = [3], item = 4,
          total_transactions = 2, request_id = []\<rparr>"

definition demo_db :: "js_string \<Rightarrow> database" where
  "demo_db token =
     \<lparr>plaid_items = [\<lparr>item_id = str ''item-1'', user_id = str ''u1'', access_token = token,
                       created_at = 0\<rparr>],
      db_failure = None\<rparr>"

definition demo_exchange :: "js_string \<Rightarrow> int thrown + js_string \<times> js_string" where
  "demo_exchange public_token = Inr (str ''secret-'' @ public_token, str ''item-1'')"

definition empty_db :: database where
  "empty_db = \<lparr>plaid_items = [], db_failure = None\<rparr>"

section \<open>Facts about the encodings\<close>

lemma str_length: "length (str s) = length s"
  by (simp add: str_def)

lemma unat_of_nat8: "n < 256 \<Longrightarrow> unat (of_nat n :: 8 word) = n"
  by (simp add: unat_of_nat)

lemma unat_of_nat16: "n < 65536 \<Longrightarrow> unat (of_nat n :: 16 word) = n"
  by (simp add: unat_of_nat)

lemma byte_bound: "unat (b :: byte) < 256"
  using unsigned_less [of b, where ?'a = nat] by simp

lemma code_unit_bound: "unat (u :: code_unit) < 65536"
  using unsigned_less [of u, where ?'a = nat] by simp

lemma mod_32: "q < 32 \<Longrightarrow> (192 + q) mod 32 = (q::nat)" by (simp add: mod_add_left_eq [symmetric])
lemma mod_16: "q < 16 \<Longrightarrow> (224 + q) mod 16 = (q::nat)" by (simp add: mod_add_left_eq [symmetric])
lemma mod_8: "q < 8 \<Longrightarrow> (240 + q) mod 8 = (q::nat)" by (simp add: mod_add_left_eq [symmetric])
lemma mod_64: "r < 64 \<Longrightarrow> (128 + r) mod 64 = (r::nat)" by (simp add: mod_add_left_eq [symmetric])

lemma lead_1:
  assumes "n < 128"
  shows "utf8_points 0 0 0x80 0xBF (of_nat n # bs) = n # utf8_points 0 0 0x80 0xBF bs"
proof -
  have b: "unat (of_nat n :: byte) = n"
    using assms by (intro unat_of_nat8) simp
  show ?thesis
    using assms by (subst utf8_points.simps) (simp add: b Let_def del: utf8_points.simps)
qed

lemma lead_2:
  assumes "2 \<le> q" "q < 32"
  shows "utf8_points 0 0 0x80 0xBF (of_nat (192 + q) # bs) = utf8_points q 1 0x80 0xBF bs"
proof -
  have b: "unat (of_nat (192 + q) :: byte) = 192 + q"
    using assms by (intro unat_of_nat8) simp
  show ?thesis
    using assms
    by (subst utf8_points.simps)
      (simp add: b mod_32 Let_def del: of_nat_add of_nat_numeral utf8_points.simps)
qed

lemma lead_3:
  assumes "q < 16"
  shows "utf8_points 0 0 0x80 0xBF (of_nat (224 + q) # bs) =
    utf8_points q 2 (if q = 0 then 0xA0 else 0x80) (if q = 13 then 0x9F else 0xBF) bs"
proof -
  have b: "unat (of_nat (224 + q) :: byte) = 224 + q"
    using assms by (intro unat_of_nat8) simp
  show ?thesis
    using assms
    by (subst utf8_points.simps)
      (simp add: b mod_16 Let_def del: of_nat_add of_nat_numeral utf8_points.simps)
qed

lemma lead_4:
  assumes "q < 5"
  shows "utf8_points 0 0 0x80 0xBF (of_nat (240 + q) # bs) =
    utf8_points q 3 (if q = 0 then 0x90 else 0x80) (if q = 4 then 0x8F else 0xBF) bs"
proof -
  have b: "unat (of_nat (240 + q) :: byte) = 240 + q"
    using assms by (intro unat_of_nat8) simp
  have m: "(240 + q) mod 8 = q"
    using assms by (intro mod_8) simp
  show ?thesis
    using assms
    by (subst utf8_points.simps)
      (simp add: b m Let_def del: of_nat_add of_nat_numeral utf8_points.simps)
qed

lemma continue_3:
  assumes "r < 64" "lo \<le> 128 + r" "128 + r \<le> hi"
  shows "utf8_points cp 3 lo hi (of_nat (128 + r) # bs) =
    utf8_points (cp * 64 + r) 2 0x80 0xBF bs"
proof -
  have b: "unat (of_nat (128 + r) :: byte) = 128 + r"
    using assms by (intro unat_of_nat8) simp
  show ?thesis
    using assms
    by (subst utf8_points.simps)
      (simp add: b mod_64 Let_def del: of_nat_add of_nat_numeral utf8_points.simps)
qed

lemma continue_2:
  assumes "r < 64" "lo \<le> 128 + r" "128 + r \<le> hi"
  shows "utf8_points cp 2 lo hi (of_nat (128 + r) # bs) =
    utf8_points (cp * 64 + r) 1 0x80 0xBF bs"
proof -
  have b: "unat (of_nat (128 + r) :: byte) = 128 + r"
    using assms by (intro unat_of_nat8) simp
  show ?thesis
    using assms
    by (subst utf8_points.simps)
      (simp add: b mod_64 Let_def del: of_nat_add of_nat_numeral utf8_points.simps)
qed

lemma continue_1:
  assumes "r < 64"
  shows "utf8_points cp 1 0x80 0xBF (of_nat (128 + r) # bs) =
    (cp * 64 + r) # utf8_points 0 0 0x80 0xBF bs"
proof -
  have b: "unat (of_nat (128 + r) :: byte) = 128 + r"
    using assms by (intro unat_of_nat8) simp
  show ?thesis
    using assms
    by (subst utf8_points.simps)
      (simp add: b mod_64 Let_def del: of_nat_add of_nat_numeral utf8_points.simps)
qed

lemma digits_2: "c div 64 * 64 + c mod 64 = (c::nat)"
  by simp

lemma digits_3: "(c div 4096 * 64 + c div 64 mod 64) * 64 + c mod 64 = (c::nat)"
proof -
  have "c div 4096 = c div 64 div 64" by (simp add: div_mult2_eq)
  then have "c div 4096 * 64 + c div 64 mod 64 = c div 64" by simp
  then show ?thesis by simp
qed

lemma digits_4:
  "((c div 262144 * 64 + c div 4096 mod 64) * 64 + c div 64 mod 64) * 64 + c mod 64 = (c::nat)"
proof -
  have "c div 262144 = c div 4096 div 64" by (simp add: div_mult2_eq)
  then have e: "c div 262144 * 64 + c div 4096 mod 64 = c div 4096" by simp
  show ?thesis unfolding e by (rule digits_3)
qed

lemma decode_encoded_1:
  assumes "c < 0x80"
  shows "utf8_points 0 0 0x80 0xBF (utf8_of_code_point c @ bs) = c # utf8_points 0 0 0x80 0xBF bs"
  using assms by (simp add: utf8_of_code_point_def lead_1 del: utf8_points.simps)

lemma decode_encoded_2:
  assumes "0x80 \<le> c" "c < 0x800"
  shows "utf8_points 0 0 0x80 0xBF (utf8_of_code_point c @ bs) = c # utf8_points 0 0 0x80 0xBF bs"
proof -
  define q r where "q = c div 64" and "r = c mod 64"
  have q: "2 \<le> q" "q < 32"
    using assms by (simp_all add: q_def less_eq_div_iff_mult_less_eq div_less_iff_less_mult)
  have r: "r < 64" by (simp add: r_def)
  have c: "q * 64 + r = c" unfolding q_def r_def by (rule digits_2)
  have enc: "utf8_of_code_point c = [of_nat (192 + q), of_nat (128 + r)]"
    using assms by (simp add: utf8_of_code_point_def q_def r_def del: of_nat_add of_nat_numeral)
  have "utf8_points 0 0 0x80 0xBF (utf8_of_code_point c @ bs)
      = utf8_points 0 0 0x80 0xBF (of_nat (192 + q) # of_nat (128 + r) # bs)"
    by (simp only: enc append.simps)
  also have "\<dots> = utf8_points q 1 0x80 0xBF (of_nat (128 + r) # bs)"
    using q by (rule lead_2)
  also have "\<dots> = (q * 64 + r) # utf8_points 0 0 0x80 0xBF bs"
    using r by (rule continue_1)
  finally show ?thesis by (simp only: c)
qed

lemma decode_encoded_3:
  assumes "0x800 \<le> c" "c < 0x10000" "c < 0xD800 \<or> 0xDFFF < c"
  shows "utf8_points 0 0 0x80 0xBF (utf8_of_code_point c @ bs) = c # utf8_points 0 0 0x80 0xBF bs"
proof -
  define d where "d = c div 64"
  define q1 q2 r where "q1 = c div 4096" and "q2 = d mod 64" and "r = c mod 64"
  have q1_d: "q1 = d div 64" by (simp add: q1_def d_def div_mult2_eq)
  have d: "d = q1 * 64 + q2" by (simp add: q1_d q2_def)
  have d_lo: "32 \<le> d"
    using assms by (simp add: d_def less_eq_div_iff_mult_less_eq)
  have d_sur: "d < 864 \<or> 896 \<le> d"
    using assms(3) by (auto simp add: d_def less_eq_div_iff_mult_less_eq div_less_iff_less_mult)
  have q1: "q1 < 16"
    using assms by (simp add: q1_def div_less_iff_less_mult)
  have q2: "q2 < 64" and r: "r < 64" by (simp_all add: q2_def r_def)
  have lo: "(if q1 = 0 then 0xA0 else 0x80) \<le> 128 + q2" using d d_lo by simp
  have hi: "128 + q2 \<le> (if q1 = 13 then 0x9F else 0xBF)" using d d_sur q2 by auto
  have c: "(q1 * 64 + q2) * 64 + r = c"
    unfolding q1_def q2_def r_def d_def by (rule digits_3)
  have enc: "utf8_of_code_point c = [of_nat (224 + q1), of_nat (128 + q2), of_nat (128 + r)]"
    using assms
    by (simp add: utf8_of_code_point_def q1_def q2_def r_def d_def del: of_nat_add of_nat_numeral)
  have "utf8_points 0 0 0x80 0xBF (utf8_of_code_point c @ bs)
      = utf8_points 0 0 0x80 0xBF (of_nat (224 + q1) # of_nat (128 + q2) # of_nat (128 + r) # bs)"
    by (simp only: enc append.simps)
  also have "\<dots> = utf8_points q1 2 (if q1 = 0 then 0xA0 else 0x80)
      (if q1 = 13 then 0x9F else 0xBF) (of_nat (128 + q2) # of_nat (128 + r) # bs)"
    using q1 by (rule lead_3)
  also have "\<dots> = utf8_points (q1 * 64 + q2) 1 0x80 0xBF (of_nat (128 + r) # bs)"
    using q2 lo hi by (rule continue_2)
  also have "\<dots> = ((q1 * 64 + q2) * 64 + r) # utf8_points 0 0 0x80 0xBF bs"
    using r by (rule continue_1)
  finally show ?thesis by (simp only: c)
qed

lemma decode_encoded_4:
  assumes "0x10000 \<le> c" "c < 0x110000"
  shows "utf8_points 0 0 0x80 0xBF (utf8_of_code_point c @ bs) = c # utf8_points 0 0 0x80 0xBF bs"
proof -
  define d where "d = c div 4096"
  define q1 q2 q3 r where "q1 = c div 262144" and "q2 = d mod 64" and "q3 = c div 64 mod 64"
    and "r = c mod 64"
  have q1_d: "q1 = d div 64" by (simp add: q1_def d_def div_mult2_eq)
  have d: "d = q1 * 64 + q2" by (simp add: q1_d q2_def)
  have d_lo: "16 \<le> d"
    using assms by (simp add: d_def less_eq_div_iff_mult_less_eq)
  have d_hi: "d < 272"
    using assms by (simp add: d_def div_less_iff_less_mult)
  have q1: "q1 < 5"
    using assms by (simp add: q1_def div_less_iff_less_mult)
  have q2: "q2 < 64" and q3: "q3 < 64" and r: "r < 64" by (simp_all add: q2_def q3_def r_def)
  have lo: "(if q1 = 0 then 0x90 else 0x80) \<le> 128 + q2" using d d_lo by simp
  have hi: "128 + q2 \<le> (if q1 = 4 then 0x8F else 0xBF)" using d d_hi q2 by simp
  have c: "((q1 * 64 + q2) * 64 + q3) * 64 + r = c"
    unfolding q1_def q2_def q3_def r_def d_def by (rule digits_4)
  have enc: "utf8_of_code_point c =
      [of_nat (240 + q1), of_nat (128 + q2), of_nat (128 + q3), of_nat (128 + r)]"
    using assms
    by (simp add: utf8_of_code_point_def q1_def q2_def q3_def r_def d_def
        del: of_nat_add of_nat_numeral)
  have "utf8_points 0 0 0x80 0xBF (utf8_of_code_point c @ bs)
      = utf8_points 0 0 0x80 0xBF
          (of_nat (240 + q1) # of_nat (128 + q2) # of_nat (128 + q3) # of_nat (128 + r) # bs)"
    by (simp only: enc append.simps)
  also have "\<dots> = utf8_points q1 3 (if q1 = 0 then 0x90 else 0x80)
      (if q1 = 4 then 0x8F else 0xBF) (of_nat (128 + q2) # of_nat (128 + q3) # of_nat (128 + r) # bs)"
    using q1 by (rule lead_4)
  also have "\<dots> = utf8_points (q1 * 64 + q2) 2 0x80 0xBF (of_nat (128 + q3) # of_nat (128 + r) # bs)"
    using q2 lo hi by (rule continue_3)
  also have "\<dots> = utf8_points ((q1 * 64 + q2) * 64 + q3) 1 0x80 0xBF (of_nat (128 + r) # bs)"
    using q3 by (intro continue_2) simp_all
  also have "\<dots> = (((q1 * 64 + q2) * 64 + q3) * 64 + r) # utf8_points 0 0 0x80 0xBF bs"
    using r by (rule continue_1)
  finally show ?thesis by (simp only: c)
qed

lemma decode_encoded_code_point:
  assumes "scalar_value c"
  shows "utf8_points 0 0 0x80 0xBF (utf8_of_code_point c @ bs) = c # utf8_points 0 0 0x80 0xBF bs"
proof -
  consider "c < 0x80" | "0x80 \<le> c" "c < 0x800" | "0x800 \<le> c" "c < 0x10000" | "0x10000 \<le> c"
    by linarith
  then show ?thesis
  proof cases
    case 1 then show ?thesis by (rule decode_encoded_1)
  next
    case 2 then show ?thesis by (rule decode_encoded_2)
  next
    case 3 then show ?thesis using assms by (intro decode_encoded_3) (simp_all add: scalar_value_def)
  next
    case 4 then show ?thesis using assms by (intro decode_encoded_4) (simp_all add: scalar_value_def)
  qed
qed

lemma decode_encoded_points:
  "list_all scalar_value cs \<Longrightarrow>
   utf8_points 0 0 0x80 0xBF (concat (map utf8_of_code_point cs)) = cs"
  by (induction cs) (simp_all add: decode_encoded_code_point del: utf8_points.simps add: utf8_points.simps(1))
lemma pair_scalar:
  assumes "is_high_surrogate u" "is_low_surrogate v"
  shows "scalar_value (0x10000 + (unat u - 0xD800) * 0x400 + (unat v - 0xDC00))"
proof -
  define a b where "a = unat u - 0xD800" and "b = unat v - 0xDC00"
  have "a < 0x400" "b < 0x400"
    using assms by (auto simp add: a_def b_def is_high_surrogate_def is_low_surrogate_def)
  then have "0x10000 + a * 0x400 + b < 0x110000" "0xDFFF < 0x10000 + a * 0x400 + b"
    by simp_all
  then show ?thesis
    unfolding scalar_value_def a_def b_def by simp
qed

lemma unit_scalar:
  assumes "\<not> is_high_surrogate u" "\<not> is_low_surrogate u"
  shows "scalar_value (unat u)"
  using assms code_unit_bound [of u]
  by (auto simp add: scalar_value_def is_high_surrogate_def is_low_surrogate_def)

lemma code_points_scalar: "list_all scalar_value (code_points s)"
  by (induction s rule: code_points.induct)
    (simp_all add: pair_scalar unit_scalar, simp_all add: scalar_value_def)

lemma utf16_unit:
  "utf16_of_code_point (unat (u :: code_unit)) = [u]"
  using code_unit_bound [of u] by (simp add: utf16_of_code_point_def)

lemma utf16_replacement: "utf16_of_code_point 0xFFFD = [0xFFFD]"
  by (simp add: utf16_of_code_point_def)

lemma utf16_pair:
  assumes "is_high_surrogate u" "is_low_surrogate v"
  shows "utf16_of_code_point (0x10000 + (unat u - 0xD800) * 0x400 + (unat v - 0xDC00)) = [u, v]"
proof -
  define a b where "a = unat u - 0xD800" and "b = unat v - 0xDC00"
  have ab: "a < 0x400" "b < 0x400" and u: "unat u = 0xD800 + a" and v: "unat v = 0xDC00 + b"
    using assms by (auto simp add: a_def b_def is_high_surrogate_def is_low_surrogate_def)
  have d: "(a * 0x400 + b) div 0x400 = a" and m: "(a * 0x400 + b) mod 0x400 = b"
    using ab by simp_all
  have "utf16_of_code_point (0x10000 + a * 0x400 + b) =
      [of_nat (0xD800 + a), of_nat (0xDC00 + b)]"
    using d m by (simp add: utf16_of_code_point_def del: of_nat_add of_nat_numeral)
  also have "\<dots> = [of_nat (unat u), of_nat (unat v)]"
    by (simp only: u v)
  also have "\<dots> = [u, v]" by simp
  finally show ?thesis unfolding a_def b_def .
qed

lemma utf16_code_points:
  "concat (map utf16_of_code_point (code_points s)) = to_well_formed s"
  by (induction s rule: code_points.induct)
    (simp_all add: utf16_unit utf16_replacement utf16_pair)

lemma utf8_decode_encode: "utf8_decode (utf8_encode s) = to_well_formed s"
  by (simp add: utf8_decode_def utf8_encode_def decode_encoded_points code_points_scalar
      utf16_code_points del: utf8_points.simps)

lemma replacement_not_surrogate:
  "\<not> is_high_surrogate 0xFFFD" "\<not> is_low_surrogate 0xFFFD"
  by (simp_all add: is_high_surrogate_def is_low_surrogate_def)

lemma to_well_formed_id: "to_well_formed s = s \<longleftrightarrow> well_formed s"
  by (induction s rule: well_formed.induct) (use replacement_not_surrogate in auto)


lemma unat_hex_digit: "n < 16 \<Longrightarrow> unat (hex_digit n) = (if n < 10 then 48 + n else 87 + n)"
  unfolding hex_digit_def by (simp add: unat_of_nat16 del: of_nat_add)

lemma unhex_hex_digit: "n < 16 \<Longrightarrow> unhex (hex_digit n) = Some n"
  by (simp add: unhex_def unat_hex_digit)

lemma byte_nibbles: "of_nat (16 * (unat b div 16) + unat b mod 16) = (b :: byte)"
  by simp

lemma from_hex_to_hex_append: "from_hex (to_hex bs @ rest) = bs @ from_hex rest"
proof (induction bs)
  case Nil
  show ?case by (simp add: to_hex_def)
next
  case (Cons b bs)
  have hi: "unhex (hex_digit (unat b div 16)) = Some (unat b div 16)"
  proof (rule unhex_hex_digit)
    show "unat b div 16 < 16"
      using byte_bound [of b] by simp
  qed
  have lo: "unhex (hex_digit (unat b mod 16)) = Some (unat b mod 16)"
    by (intro unhex_hex_digit) simp
  from Cons show ?case
    by (simp add: to_hex_def hex_of_byte_def hi lo byte_nibbles del: of_nat_add of_nat_mult)
qed

lemma from_hex_to_hex: "from_hex (to_hex bs) = bs"
  using from_hex_to_hex_append [of bs "[]"] by simp

lemma to_hex_inject: "to_hex xs = to_hex ys \<Longrightarrow> xs = ys"
  by (metis from_hex_to_hex)

lemma length_to_hex: "length (to_hex bs) = 2 * length bs"
  by (induction bs) (simp_all add: to_hex_def hex_of_byte_def)

lemma to_hex_append: "to_hex (xs @ ys) = to_hex xs @ to_hex ys"
  by (simp add: to_hex_def)

lemma length_from_hex: "2 * length (from_hex s) \<le> length s"
  by (induction s rule: from_hex.induct) (simp_all split: option.splits)

lemma from_hex_same_digits:
  "list_all2 (\<lambda>a b. unhex a = unhex b) s t \<Longrightarrow> from_hex s = from_hex t"
proof (induction s arbitrary: t rule: from_hex.induct)
  case (1 a b rest)
  then obtain a' b' rest' where t: "t = a' # b' # rest'"
    and ab: "unhex a = unhex a'" "unhex b = unhex b'"
    and r: "list_all2 (\<lambda>a b. unhex a = unhex b) rest rest'"
    by (auto simp add: list_all2_Cons1)
  show ?case
    using "1.IH" [of _ _ rest'] r ab unfolding t by (simp split: option.splits)
next
  case (2 a)
  then show ?case by (auto simp add: list_all2_Cons1)
next
  case 3
  then show ?case by simp
qed

lemma xor_stream_involution: "xor_stream ks i (xor_stream ks i xs) = xs"
  by (induction xs arbitrary: i) (simp_all add: xor.assoc)

lemma gcm_crypt_involution: "gcm_crypt G key iv (gcm_crypt G key iv data) = data"
  by (simp add: gcm_crypt_def xor_stream_involution)

lemma length_tag_bytes: "length (tag_bytes t) = 16"
  by (simp add: tag_bytes_def)

lemma encrypt_value:
  assumes "length key = 32" "iv \<noteq> []"
  shows "encrypt G key iv plain =
    Inr (to_hex (iv @ tag_bytes (gcm_tag G key iv (gcm_crypt G key iv (utf8_encode plain)))
           @ gcm_crypt G key iv (utf8_encode plain)))"
  using assms by (simp add: encrypt_def create_cipheriv_def Let_def)

lemma encrypt_hex_parts_eq: "encrypt_hex_parts G key iv plain = encrypt G key iv plain"
  by (simp add: encrypt_hex_parts_def encrypt_def to_hex_append Let_def split: option.splits)

lemma blob_fields:
  assumes "length iv = 16" "length tag = 16"
  shows "substring (to_hex (iv @ tag @ ct)) 0 (IV_LENGTH * 2) = to_hex iv"
    and "substring (to_hex (iv @ tag @ ct)) (IV_LENGTH * 2) ((IV_LENGTH + AUTH_TAG_LENGTH) * 2)
          = to_hex tag"
    and "substring_from (to_hex (iv @ tag @ ct)) ((IV_LENGTH + AUTH_TAG_LENGTH) * 2) = to_hex ct"
  using assms
  by (simp_all add: substring_def substring_from_def to_hex_append length_to_hex
      IV_LENGTH_def AUTH_TAG_LENGTH_def)

lemma decrypt_blob:
  assumes "length key = 32" "length iv = 16" "length tag = 16"
  shows "decrypt G key (to_hex (iv @ tag @ ct)) =
    (if tag_bytes (gcm_tag G key iv ct) = tag
     then Inr (utf8_decode (gcm_crypt G key iv ct))
     else Inl Unable_to_authenticate)"
proof -
  have iv: "iv \<noteq> []" using assms by auto
  show ?thesis
    unfolding decrypt_def blob_fields [OF assms(2,3)] from_hex_to_hex Let_def
    using assms iv
    by (simp add: create_cipheriv_def valid_gcm_tag_length_def length_tag_bytes length_to_hex)
qed

lemma decrypt_encrypt:
  assumes "length key = 32" "length iv = 16"
  shows "\<exists>c. encrypt G key iv plain = Inr c \<and> decrypt G key c = Inr (to_well_formed plain)"
proof -
  have iv: "iv \<noteq> []" using assms by auto
  show ?thesis
    unfolding encrypt_value [OF assms(1) iv]
    by (simp add: decrypt_blob [OF assms] length_tag_bytes gcm_crypt_involution
        utf8_decode_encode)
qed

lemma decrypt_short:
  assumes "length text < 40"
  shows "\<exists>e. decrypt G key text = Inl e"
proof -
  define authTag where "authTag = from_hex (substring text (IV_LENGTH * 2)
    ((IV_LENGTH + AUTH_TAG_LENGTH) * 2))"
  have "2 * length authTag \<le> length (substring text (IV_LENGTH * 2)
      ((IV_LENGTH + AUTH_TAG_LENGTH) * 2))"
    unfolding authTag_def by (rule length_from_hex)
  also have "\<dots> < 8"
    using assms by (simp add: substring_def IV_LENGTH_def AUTH_TAG_LENGTH_def)
  finally have "\<not> valid_gcm_tag_length (length authTag)"
    by (simp add: valid_gcm_tag_length_def)
  then show ?thesis
    unfolding decrypt_def Let_def authTag_def [symmetric]
    by (simp split: option.splits)
qed

lemma decrypt_same_digits:
  assumes "list_all2 (\<lambda>a b. unhex a = unhex b) s t"
  shows "decrypt G key t = decrypt G key s"
proof -
  have part: "from_hex (substring t a b) = from_hex (substring s a b)" for a b
    unfolding substring_def
    by (intro from_hex_same_digits [symmetric] list_all2_takeI list_all2_dropI assms)
  have rest: "from_hex (substring_from t a) = from_hex (substring_from s a)" for a
    unfolding substring_from_def
    by (intro from_hex_same_digits [symmetric] list_all2_dropI assms)
  have len: "length (substring_from t a) = length (substring_from s a)" for a
    using list_all2_lengthD [OF assms] by (simp add: substring_from_def)
  show ?thesis
    unfolding decrypt_def Let_def part rest len by (rule refl)
qed

lemma decrypt_all_or_nothing:
  assumes "decrypt G key text = Inr p"
  shows "p = utf8_decode (gcm_crypt G key (from_hex (substring text 0 32))
            (from_hex (substring_from text 64)))
       \<and> from_hex (substring text 32 64) =
           take (length (from_hex (substring text 32 64)))
             (tag_bytes (gcm_tag G key (from_hex (substring text 0 32))
                (from_hex (substring_from text 64))))"
  using assms
  by (auto simp add: decrypt_def Let_def IV_LENGTH_def AUTH_TAG_LENGTH_def
      split: option.splits if_splits)

lemma unhex_z: "unhex 0x7A = None"
  by (simp add: unhex_def)

lemma unhex_0161: "unhex 0x0161 = unhex 0x61"
  by (simp add: unhex_def)

lemma to_hex_digits: "x \<in> set (to_hex bs) \<Longrightarrow> unhex x \<noteq> None"
proof (induction bs)
  case Nil
  then show ?case by (simp add: to_hex_def)
next
  case (Cons b bs)
  have hi: "unhex (hex_digit (unat b div 16)) = Some (unat b div 16)"
  proof (rule unhex_hex_digit)
    show "unat b div 16 < 16"
      using byte_bound [of b] by simp
  qed
  have lo: "unhex (hex_digit (unat b mod 16)) = Some (unat b mod 16)"
    by (intro unhex_hex_digit) simp
  from Cons show ?case
    by (auto simp add: to_hex_def hex_of_byte_def hi lo)
qed

lemma decrypt_cut_tag:
  assumes "length key = 32" and "length iv = 16" and "unhex x = None"
  shows "\<exists>c. encrypt G key iv P = Inr c \<and> 40 < length c \<and> unhex (c ! 40) \<noteq> None \<and>
           decrypt G key c = Inr (to_well_formed P) \<and>
           decrypt G key (c[40 := x]) = Inr (to_well_formed P)"
proof -
  define ct where "ct = gcm_crypt G key iv (utf8_encode P)"
  define tag where "tag = tag_bytes (gcm_tag G key iv ct)"
  define c where "c = to_hex (iv @ tag @ ct)"
  have iv: "iv \<noteq> []" using assms(2) by auto
  have tl: "length tag = 16" by (simp add: tag_def length_tag_bytes)
  have e: "encrypt G key iv P = Inr c"
    unfolding c_def tag_def ct_def using assms(1) iv by (rule encrypt_value)
  have d: "decrypt G key c = Inr (to_well_formed P)"
    using decrypt_encrypt [OF assms(1,2), of G P] e by simp
  have len: "length c = 64 + 2 * length ct"
    using assms(2) tl by (simp add: c_def length_to_hex)
  then have l40: "40 < length c" by simp
  then have "c ! 40 \<in> set c" by simp
  then have digit: "unhex (c ! 40) \<noteq> None"
    unfolding c_def by (rule to_hex_digits)
  obtain h l where hl: "to_hex (drop 4 tag) = h # l # to_hex (drop 5 tag)"
  proof -
    have "4 < length tag" using tl by simp
    then have "tag ! 4 # drop (Suc 4) tag = drop 4 tag"
      by (rule Cons_nth_drop_Suc)
    then have "drop 4 tag = tag ! 4 # drop 5 tag" by simp
    then show ?thesis
      using that by (simp add: to_hex_def hex_of_byte_def)
  qed
  have split: "c = to_hex iv @ to_hex (take 4 tag) @ (h # l # to_hex (drop 5 tag)) @ to_hex ct"
  proof -
    have "c = to_hex iv @ to_hex (take 4 tag @ drop 4 tag) @ to_hex ct"
      unfolding c_def by (simp add: to_hex_append)
    also have "to_hex (take 4 tag @ drop 4 tag) = to_hex (take 4 tag) @ to_hex (drop 4 tag)"
      by (rule to_hex_append)
    finally show ?thesis
      unfolding hl by simp
  qed
  have l1: "length (to_hex iv) = 32" using assms(2) by (simp add: length_to_hex)
  have l2: "length (to_hex (take 4 tag)) = 8" using tl by (simp add: length_to_hex)
  have l3: "length (to_hex (drop 5 tag)) = 22" using tl by (simp add: length_to_hex)
  have upd: "c[40 := x] = to_hex iv @ to_hex (take 4 tag) @ (x # l # to_hex (drop 5 tag)) @ to_hex ct"
    unfolding split by (simp add: list_update_append l1 l2)
  have f1: "substring (c[40 := x]) 0 (IV_LENGTH * 2) = to_hex iv"
    unfolding upd using l1 by (simp add: substring_def IV_LENGTH_def)
  have f2: "substring (c[40 := x]) (IV_LENGTH * 2) ((IV_LENGTH + AUTH_TAG_LENGTH) * 2)
      = to_hex (take 4 tag) @ (x # l # to_hex (drop 5 tag))"
    unfolding upd using l1 l2 l3 by (simp add: substring_def IV_LENGTH_def AUTH_TAG_LENGTH_def)
  have f3: "substring_from (c[40 := x]) ((IV_LENGTH + AUTH_TAG_LENGTH) * 2) = to_hex ct"
    unfolding upd using l1 l2 l3 by (simp add: substring_from_def IV_LENGTH_def AUTH_TAG_LENGTH_def)
  have t4: "from_hex (to_hex (take 4 tag) @ (x # l # to_hex (drop 5 tag))) = take 4 tag"
    using assms(3) by (simp add: from_hex_to_hex_append)
  have even: "\<not> odd (length (to_hex ct))" by (simp add: length_to_hex)
  have "decrypt G key (c[40 := x]) = Inr (utf8_decode (gcm_crypt G key iv ct))"
    unfolding decrypt_def f1 f2 f3 t4 from_hex_to_hex Let_def
    using assms(1) iv tl even
    by (simp add: create_cipheriv_def valid_gcm_tag_length_def tag_def)
  also have "\<dots> = Inr (to_well_formed P)"
    by (simp add: ct_def gcm_crypt_involution utf8_decode_encode)
  finally show ?thesis
    using e l40 digit d by blast
qed

section \<open>The claims about the codec\<close>

lemma demo_key_length: "length demo_key = 32"
  by (simp add: demo_key_def)

lemma demo_iv_length: "length demo_iv = IV_LENGTH"
  by (simp add: demo_iv_def IV_LENGTH_def)

lemma secret_abc_well_formed: "well_formed (str ''secret-abc'')"
  by (simp add: str_def is_high_surrogate_def is_low_surrogate_def)

text \<open>
  Claim C1, as amended.  For every plaintext that is well formed (no surrogate
  outside a pair), every 32-byte key and every 16-byte nonce, \<open>encrypt\<close> returns a
  ciphertext string and \<open>decrypt\<close> of that string returns exactly the plaintext.
\<close>

theorem roundtrip_well_formed:
  assumes "length K = 32" and "length iv = IV_LENGTH" and "well_formed P"
  shows "\<exists>c. encrypt G K iv P = Inr c \<and> decrypt G K c = Inr P"
proof -
  have "to_well_formed P = P"
    using assms(3) by (simp add: to_well_formed_id)
  then show ?thesis
    using decrypt_encrypt [of K iv G P] assms(1,2) by (simp add: IV_LENGTH_def)
qed

text \<open>The theorem of C1 at the plaintext \<open>secret-abc\<close>.\<close>

theorem roundtrip_well_formed_witness:
  "length demo_key = 32 \<and> length demo_iv = IV_LENGTH \<and> well_formed (str ''secret-abc'') \<and>
   (\<exists>c. encrypt demo_gcm demo_key demo_iv (str ''secret-abc'') = Inr c \<and>
        decrypt demo_gcm demo_key c = Inr (str ''secret-abc''))"
  using roundtrip_well_formed [OF demo_key_length demo_iv_length secret_abc_well_formed, of demo_gcm]
    demo_key_length demo_iv_length secret_abc_well_formed
  by simp

text \<open>
  Claim C1 as stated fails: the plaintext consisting of the single code unit U+D800
  is encrypted as the bytes of U+FFFD, and \<open>decrypt\<close> returns U+FFFD, not the
  plaintext.  (\<open>decrypt_encrypt\<close> gives the same for every cipher.)
\<close>

theorem roundtrip_lone_surrogate:
  "(case encrypt demo_gcm demo_key demo_iv [0xD800] of
      Inl e \<Rightarrow> False
    | Inr c \<Rightarrow> decrypt demo_gcm demo_key c = Inr [0xFFFD] \<and>
               decrypt demo_gcm demo_key c \<noteq> Inr [0xD800])"
proof -
  obtain c where "encrypt demo_gcm demo_key demo_iv [0xD800] = Inr c"
    and "decrypt demo_gcm demo_key c = Inr (to_well_formed [0xD800])"
    using decrypt_encrypt [of demo_key demo_iv demo_gcm "[0xD800]"] demo_key_length demo_iv_length
    by (auto simp add: IV_LENGTH_def)
  then show ?thesis by (simp add: is_high_surrogate_def)
qed

text \<open>
  Claim C5.  Every call of \<open>encrypt\<close> takes the 16 bytes that \<open>randomBytes\<close> returned
  in that call and puts them first in its result; two calls with the same plaintext
  and the same key whose nonces differ return different strings.  This holds for
  both versions of \<open>encrypt\<close>.
\<close>

theorem nonce_decides_ciphertext:
  assumes "length K = 32" and "length iv1 = IV_LENGTH" and "length iv2 = IV_LENGTH"
    and "iv1 \<noteq> iv2"
  shows "encrypt G K iv1 P \<noteq> encrypt G K iv2 P \<and>
         encrypt_hex_parts G K iv1 P \<noteq> encrypt_hex_parts G K iv2 P \<and>
         (\<exists>c. encrypt G K iv1 P = Inr c \<and> from_hex (substring c 0 (IV_LENGTH * 2)) = iv1)"
proof -
  have ne: "iv1 \<noteq> []" "iv2 \<noteq> []"
    using assms(2,3) by (auto simp add: IV_LENGTH_def)
  have "iv1 @ xs \<noteq> iv2 @ ys" for xs ys :: bytes
    using assms(2,3,4) by simp
  then have d: "encrypt G K iv1 P \<noteq> encrypt G K iv2 P"
    unfolding encrypt_value [OF assms(1) ne(1)] encrypt_value [OF assms(1) ne(2)]
    by (auto dest: to_hex_inject)
  have "from_hex (substring (to_hex (iv1 @ t @ ct)) 0 (IV_LENGTH * 2)) = iv1" for t ct
    using assms(2)
    by (simp add: substring_def to_hex_append length_to_hex from_hex_to_hex IV_LENGTH_def)
  then show ?thesis
    using d by (simp add: encrypt_hex_parts_eq encrypt_value [OF assms(1) ne(1)])
qed

text \<open>The theorem of C5 at two nonces.\<close>

theorem nonce_decides_ciphertext_witness:
  "length demo_key = 32 \<and> length demo_iv = IV_LENGTH \<and> length (replicate 16 (0x55 :: byte)) = IV_LENGTH
   \<and> demo_iv \<noteq> replicate 16 0x55
   \<and> encrypt demo_gcm demo_key demo_iv (str ''secret-abc'')
       \<noteq> encrypt demo_gcm demo_key (replicate 16 0x55) (str ''secret-abc'')"
proof -
  have l: "length (replicate 16 (0x55 :: byte)) = IV_LENGTH" by (simp add: IV_LENGTH_def)
  have "length demo_iv = length (replicate 16 (0x55 :: byte))"
    by (simp add: demo_iv_def)
  moreover have "hd demo_iv \<noteq> hd (replicate 16 (0x55 :: byte))"
    by (simp add: demo_iv_def hd_replicate)
  ultimately have n: "demo_iv \<noteq> replicate 16 0x55" by metis
  show ?thesis
    using nonce_decides_ciphertext [OF demo_key_length demo_iv_length l n, of demo_gcm "str ''secret-abc''"]
      demo_key_length demo_iv_length l n
    by simp
qed

text \<open>
  Claim C6.  Loading the module fails exactly when the configured key is not set
  or does not decode to 32 bytes; with a key that decodes to 32 bytes it succeeds
  and \<open>encryptionKey\<close> is the decoded key.
\<close>

theorem key_length_guard:
  "((\<exists>e. encryptionKey base64 env_key = Inl e) \<longleftrightarrow>
      (case env_key of None \<Rightarrow> True | Some s \<Rightarrow> length (base64 s) \<noteq> 32)) \<and>
   encryptionKey base64 (Some s) =
     (if length (base64 s) = 32 then Inr (base64 s) else Inl Key_length_not_32)"
  by (simp add: encryptionKey_def split: option.splits)

lemma to_hex_Cons_AA: "to_hex (0xAA # bs) = 0x61 # 0x61 # to_hex bs"
  by (simp add: to_hex_def hex_of_byte_def hex_digit_def)

lemma unhex_upper_a: "unhex 0x41 = unhex 0x61"
  by (simp add: unhex_def)

lemma same_digits_refl: "list_all2 (\<lambda>a b. unhex a = unhex b) s s"
  by (simp add: list_all2_same)

lemma demo_ciphertext:
  "\<exists>c'. encrypt demo_gcm demo_key demo_iv P = Inr (0x61 # c') \<and>
        decrypt demo_gcm demo_key (0x61 # c') = Inr (to_well_formed P)"
proof -
  obtain c where c: "encrypt demo_gcm demo_key demo_iv P = Inr c"
    and d: "decrypt demo_gcm demo_key c = Inr (to_well_formed P)"
    using decrypt_encrypt [of demo_key demo_iv demo_gcm P] demo_key_length demo_iv_length
    by (auto simp add: IV_LENGTH_def)
  have "demo_iv \<noteq> []" by (simp add: demo_iv_def)
  from c [unfolded encrypt_value [OF demo_key_length this]]
  obtain c' where "c = 0x61 # c'"
    by (auto simp add: demo_iv_def to_hex_Cons_AA)
  with c d show ?thesis by auto
qed

text \<open>
  Claim C4.  The code differs from the claim: a valid ciphertext whose character at
  index 40 (the ninth digit of the tag) is replaced by the letter \<open>z\<close> (0x7A) is not
  rejected, \<open>decrypt\<close> returns the plaintext.  \<open>Buffer.from(s, 'hex')\<close> stops at the
  character that is not a digit and returns the first four bytes of the tag;
  \<open>createDecipheriv\<close> is called without \<open>authTagLength\<close>, so \<open>setAuthTag\<close> takes a tag
  of four bytes although \<open>AUTH_TAG_LENGTH\<close> is 16, and \<open>final\<close> compares four bytes.
  (\<open>decrypt_cut_tag\<close> gives the same for every cipher, key, nonce and plaintext.)
\<close>

theorem decrypt_accepts_cut_tag:
  "(case encrypt demo_gcm demo_key demo_iv (str ''secret-abc'') of
      Inl e \<Rightarrow> False
    | Inr c \<Rightarrow> 40 < length c \<and> c ! 40 \<noteq> 0x7A \<and>
               decrypt demo_gcm demo_key c = Inr (str ''secret-abc'') \<and>
               decrypt demo_gcm demo_key (c[40 := 0x7A]) = Inr (str ''secret-abc''))"
proof -
  have wf: "to_well_formed (str ''secret-abc'') = str ''secret-abc''"
    using secret_abc_well_formed by (simp add: to_well_formed_id)
  have l: "length demo_iv = 16" by (simp add: demo_iv_def)
  obtain c where c: "encrypt demo_gcm demo_key demo_iv (str ''secret-abc'') = Inr c"
    and f: "40 < length c" "unhex (c ! 40) \<noteq> None"
      "decrypt demo_gcm demo_key c = Inr (str ''secret-abc'')"
      "decrypt demo_gcm demo_key (c[40 := 0x7A]) = Inr (str ''secret-abc'')"
    using decrypt_cut_tag [OF demo_key_length l unhex_z, of demo_gcm "str ''secret-abc''"]
    unfolding wf by blast
  have "c ! 40 \<noteq> 0x7A"
    using f(2) unhex_z by auto
  with c f show ?thesis by simp
qed

text \<open>
  What \<open>decrypt\<close> does reject, whatever the key and the cipher: every string shorter
  than 40 characters (the nonce is empty, or the tag has fewer than 4 bytes), and
  every valid ciphertext whose 16 tag bytes are replaced by 16 other bytes.  What it
  returns is never a part of a plaintext: it is the decoding of the whole decrypted
  ciphertext field.  Two texts whose characters have the same values as hexadecimal
  digits get the same result.
\<close>

lemma decrypt_rejects:
  "(length text < 40 \<longrightarrow> (\<exists>e. decrypt G K text = Inl e)) \<and>
   (length K = 32 \<and> length iv = IV_LENGTH \<and> length tag' = AUTH_TAG_LENGTH \<and>
      tag' \<noteq> tag_bytes (gcm_tag G K iv ct) \<longrightarrow>
      decrypt G K (to_hex (iv @ tag' @ ct)) = Inl Unable_to_authenticate) \<and>
   (\<forall>p. decrypt G K text = Inr p \<longrightarrow>
      p = utf8_decode (gcm_crypt G K (from_hex (substring text 0 32))
            (from_hex (substring_from text 64)))) \<and>
   (list_all2 (\<lambda>a b. unhex a = unhex b) s t \<longrightarrow> decrypt G K t = decrypt G K s)"
proof (intro conjI impI allI)
  assume "length text < 40"
  then show "\<exists>e. decrypt G K text = Inl e" by (rule decrypt_short)
next
  assume a: "length K = 32 \<and> length iv = IV_LENGTH \<and> length tag' = AUTH_TAG_LENGTH \<and>
      tag' \<noteq> tag_bytes (gcm_tag G K iv ct)"
  then have "length K = 32" "length iv = 16" "length tag' = 16"
    by (simp_all add: IV_LENGTH_def AUTH_TAG_LENGTH_def)
  from decrypt_blob [OF this] a
  show "decrypt G K (to_hex (iv @ tag' @ ct)) = Inl Unable_to_authenticate"
    by auto
next
  fix p
  assume "decrypt G K text = Inr p"
  from decrypt_all_or_nothing [OF this]
  show "p = utf8_decode (gcm_crypt G K (from_hex (substring text 0 32))
            (from_hex (substring_from text 64)))"
    by simp
next
  assume "list_all2 (\<lambda>a b. unhex a = unhex b) s t"
  then show "decrypt G K t = decrypt G K s" by (rule decrypt_same_digits)
qed

text \<open>
  A change of the case of a letter is not noticed either: the ciphertext of
  \<open>secret-abc\<close> under the nonce \<open>aa...aa\<close> starts with the letter \<open>a\<close> (0x61); with that
  one byte changed to \<open>A\<close> (0x41, one bit flipped) \<open>decrypt\<close> returns the plaintext.
  The bytes that the text stands for are the same.
\<close>

lemma decrypt_accepts_upper_case:
  "(case encrypt demo_gcm demo_key demo_iv (str ''secret-abc'') of
      Inl e \<Rightarrow> False
    | Inr c \<Rightarrow> c ! 0 = 0x61 \<and>
               decrypt demo_gcm demo_key (c[0 := 0x41]) = Inr (str ''secret-abc''))"
proof -
  obtain c where e: "encrypt demo_gcm demo_key demo_iv (str ''secret-abc'') = Inr (0x61 # c)"
    and d: "decrypt demo_gcm demo_key (0x61 # c) = Inr (to_well_formed (str ''secret-abc''))"
    using demo_ciphertext [of "str ''secret-abc''"] by auto
  have wf: "to_well_formed (str ''secret-abc'') = str ''secret-abc''"
    using secret_abc_well_formed by (simp add: to_well_formed_id)
  have "list_all2 (\<lambda>a b. unhex a = unhex b) (0x61 # c) (0x41 # c)"
    by (simp add: unhex_upper_a same_digits_refl)
  then have "decrypt demo_gcm demo_key (0x41 # c) = decrypt demo_gcm demo_key (0x61 # c)"
    by (rule decrypt_same_digits)
  then show ?thesis
    using e d wf by simp
qed

text \<open>
  The bound of 40 characters is sharp: the nonce followed by the first four bytes of
  the tag of the empty ciphertext is a string of 40 characters that \<open>decrypt\<close>
  accepts, since \<open>setAuthTag\<close> takes a tag of four bytes.
\<close>

lemma decrypt_truncated_tag:
  assumes "length key = 32" and "length iv = 16"
  shows "decrypt G key (to_hex (iv @ take 4 (tag_bytes (gcm_tag G key iv [])))) = Inr []"
    and "length (to_hex (iv @ take 4 (tag_bytes (gcm_tag G key iv [])))) = 40"
proof -
  let ?t = "take 4 (tag_bytes (gcm_tag G key iv []))"
  have t: "length ?t = 4" by (simp add: length_tag_bytes)
  have iv: "iv \<noteq> []" using assms(2) by auto
  have f1: "substring (to_hex (iv @ ?t)) 0 (IV_LENGTH * 2) = to_hex iv"
    using assms(2) by (simp add: substring_def to_hex_append length_to_hex IV_LENGTH_def)
  have f2: "substring (to_hex (iv @ ?t)) (IV_LENGTH * 2) ((IV_LENGTH + AUTH_TAG_LENGTH) * 2) = to_hex ?t"
    using assms(2) t
    by (simp add: substring_def to_hex_append length_to_hex IV_LENGTH_def AUTH_TAG_LENGTH_def)
  have f3: "substring_from (to_hex (iv @ ?t)) ((IV_LENGTH + AUTH_TAG_LENGTH) * 2) = []"
    using assms(2) t
    by (simp add: substring_from_def to_hex_append length_to_hex IV_LENGTH_def AUTH_TAG_LENGTH_def)
  show "decrypt G key (to_hex (iv @ ?t)) = Inr []"
    unfolding decrypt_def f1 f2 f3 from_hex_to_hex Let_def
    using assms(1) iv t
    by (simp add: create_cipheriv_def valid_gcm_tag_length_def gcm_crypt_def utf8_decode_def)
  show "length (to_hex (iv @ ?t)) = 40"
    using assms(2) t by (simp add: length_to_hex)
qed

section \<open>Facts about the handlers\<close>

lemma includes_str_prefix: "includes_str (t @ s) t"
proof (cases "t @ s")
  case Nil
  then show ?thesis by simp
next
  case (Cons c r)
  have "take (length t) (t @ s) = t" by simp
  then have "take (length t) (c # r) = t" unfolding Cons .
  then show ?thesis unfolding Cons by simp
qed

lemma database_error_message:
  "includes_str (str ''Database error fetching token: '' @ m) (str ''Database error'')"
proof -
  have "str ''Database error fetching token: '' @ m =
      str ''Database error'' @ (str '' fetching token: '' @ m)"
    by (simp add: str_def)
  then show ?thesis by (simp only: includes_str_prefix)
qed

lemma no_row_response:
  assumes "body_item_id body = Some iid" and "iid \<noteq> []" and "db_failure db = None"
    and "filter (\<lambda>r. item_id r = iid \<and> user_id r = uid) (plaid_items db) = []"
  shows "get_transactions_POST G key transactionsGet d1 d2 (Some uid) body db =
         (Response 500
            (Failure (str ''Database error fetching token: '' @ db_message no_single_row)), [])"
  using assms
  by (simp add: get_transactions_POST_def select_token_single_def get_transactions_catch_def
      database_error_message)

lemma filter_other_owner:
  assumes "unique_item_ids db" and "row \<in> set (plaid_items db)" and "item_id row = iid"
    and "user_id row \<noteq> uid"
  shows "filter (\<lambda>r. item_id r = iid \<and> user_id r = uid) (plaid_items db) = []"
proof -
  have "r = row" if "r \<in> set (plaid_items db)" "item_id r = iid" for r
    using assms(1,2,3) that
    by (auto simp add: unique_item_ids_def distinct_map inj_on_def)
  then show ?thesis
    using assms(4) by (auto simp add: filter_empty_conv)
qed

lemma other_owner_as_missing:
  assumes "body_item_id body = Some iid" and "iid \<noteq> []" and "db_failure db = None"
    and "unique_item_ids db" and "row \<in> set (plaid_items db)" and "item_id row = iid"
    and "user_id row \<noteq> uid"
  shows "get_transactions_POST G key transactionsGet d1 d2 (Some uid) body db =
         get_transactions_POST G key transactionsGet d1 d2 (Some uid) body
           (db\<lparr>plaid_items := []\<rparr>)"
    and "snd (get_transactions_POST G key transactionsGet d1 d2 (Some uid) body db) = []"
proof -
  have f: "filter (\<lambda>r. item_id r = iid \<and> user_id r = uid) (plaid_items db) = []"
    using assms(4-7) by (rule filter_other_owner)
  show "get_transactions_POST G key transactionsGet d1 d2 (Some uid) body db =
         get_transactions_POST G key transactionsGet d1 d2 (Some uid) body
           (db\<lparr>plaid_items := []\<rparr>)"
    using assms(1-3) f by (simp add: no_row_response)
  show "snd (get_transactions_POST G key transactionsGet d1 d2 (Some uid) body db) = []"
    using assms(1-3) f by (simp add: no_row_response)
qed

lemma decrypt_not_hex: "decrypt G key (str ''not-hex'') = Inl Invalid_iv"
  by (simp add: decrypt_def str_def substring_def unhex_def create_cipheriv_def Let_def
      IV_LENGTH_def AUTH_TAG_LENGTH_def)

lemma get_transactions_success:
  assumes "body_item_id body = Some iid" and "iid \<noteq> []"
    and "select_token_single db iid uid = Inr token" and "token \<noteq> []"
    and "decrypt G key token = Inr secret"
    and "transactionsGet \<lparr>request_access_token = secret, start_date = d1 - 30, end_date = d2,
           options_count = 500, options_offset = 0\<rparr> = Inr r"
  shows "get_transactions_POST G key transactionsGet d1 d2 (Some uid) body db =
         (Response 200 (Transactions_accounts_item (transactions r) (accounts r) (item r)),
          [Decrypt_called token,
           Transactions_get_called \<lparr>request_access_token = secret, start_date = d1 - 30,
             end_date = d2, options_count = 500, options_offset = 0\<rparr>])"
  using assms by (simp add: get_transactions_POST_def Let_def)

lemma demo_run:
  "\<exists>c. get_transactions_POST demo_gcm demo_key demo_plaid 19800 19800
          (Some (str ''u1'')) \<lparr>body_item_id = Some (str ''item-1'')\<rparr> (demo_db c) =
        (Response 200 (Transactions_accounts_item [1, 2] [3] 4),
         [Decrypt_called c,
          Transactions_get_called \<lparr>request_access_token = str ''secret-abc'', start_date = 19770,
            end_date = 19800, options_count = 500, options_offset = 0\<rparr>])"
proof -
  obtain c where d: "decrypt demo_gcm demo_key (0x61 # c) = Inr (to_well_formed (str ''secret-abc''))"
    using demo_ciphertext [of "str ''secret-abc''"] by auto
  have wf: "to_well_formed (str ''secret-abc'') = str ''secret-abc''"
    using secret_abc_well_formed by (simp add: to_well_formed_id)
  have s: "select_token_single (demo_db (0x61 # c)) (str ''item-1'') (str ''u1'') = Inr (0x61 # c)"
    by (simp add: select_token_single_def demo_db_def)
  let ?req = "\<lparr>request_access_token = str ''secret-abc'', start_date = 19800 - 30,
            end_date = 19800, options_count = 500, options_offset = 0\<rparr>"
  have p: "demo_plaid ?req =
      Inr \<lparr>transactions = [1, 2], accounts = [3], item = 4, total_transactions = 2, request_id = []\<rparr>"
    by (simp add: demo_plaid_def)
  have i: "str ''item-1'' \<noteq> []" by (simp add: str_def)
  have "get_transactions_POST demo_gcm demo_key demo_plaid 19800 19800
          (Some (str ''u1'')) \<lparr>body_item_id = Some (str ''item-1'')\<rparr> (demo_db (0x61 # c)) =
        (Response 200 (Transactions_accounts_item [1, 2] [3] 4), [Decrypt_called (0x61 # c),
          Transactions_get_called ?req])"
    using get_transactions_success [where iid = "str ''item-1''"
        and body = "\<lparr>body_item_id = Some (str ''item-1'')\<rparr>" and transactionsGet = demo_plaid
        and ?d1.0 = 19800 and ?d2.0 = 19800 and db = "demo_db (0x61 # c)" and uid = "str ''u1''"
        and token = "0x61 # c" and G = demo_gcm and key = demo_key and secret = "str ''secret-abc''"
        and r = "\<lparr>transactions = [1, 2], accounts = [3], item = 4, total_transactions = 2,
          request_id = []\<rparr>"]
      i s d [unfolded wf] p
    by simp
  then show ?thesis
    by (intro exI [of _ "0x61 # c"]) simp
qed

lemma sortedTransactions_facts:
  "mset (sortedTransactions getTime txs) = mset txs"
  "sorted (map (\<lambda>t. - getTime t) (sortedTransactions getTime txs))"
  "filter (\<lambda>t. getTime t = k) (sortedTransactions getTime txs) = filter (\<lambda>t. getTime t = k) txs"
proof -
  show "mset (sortedTransactions getTime txs) = mset txs"
    by (simp add: sortedTransactions_def)
  show "sorted (map (\<lambda>t. - getTime t) (sortedTransactions getTime txs))"
    by (simp add: sortedTransactions_def)
  have "filter (\<lambda>t. - getTime t = - k) (sort_key (\<lambda>t. - getTime t) txs)
      = filter (\<lambda>t. - getTime t = - k) txs"
    by (rule sort_key_stable)
  then show "filter (\<lambda>t. getTime t = k) (sortedTransactions getTime txs)
      = filter (\<lambda>t. getTime t = k) txs"
    by (simp add: sortedTransactions_def)
qed

lemma transactions_GET_success:
  assumes "transactions_GET getTime fetch session db = Response st b" and "success b"
  shows "\<exists>uid iid txs. fetch uid iid = Inr (Some txs) \<and> st = 200 \<and>
           b = Transactions_only (sortedTransactions getTime txs)"
  using assms
  by (auto simp add: transactions_GET_def
      split: option.splits sum.splits list.splits if_splits)

lemma get_transactions_POST_success:
  assumes "get_transactions_POST G key transactionsGet d1 d2 user body db = (Response st b, calls)"
    and "success b"
  shows "\<exists>req r. transactionsGet req = Inr r \<and> st = 200 \<and>
           b = Transactions_accounts_item (transactions r) (accounts r) (item r)"
  using assms
  by (auto simp add: get_transactions_POST_def get_transactions_catch_def Let_def
      split: option.splits sum.splits if_splits thrown.splits)

lemma get_transactions_POST_one_request:
  assumes "get_transactions_POST G key transactionsGet d1 d2 user body db =
             (Response st (Transactions_accounts_item txs accs it), calls)"
  shows "\<exists>token secret r.
           calls = [Decrypt_called token,
                    Transactions_get_called
                      \<lparr>request_access_token = secret, start_date = d1 - 30, end_date = d2,
                       options_count = 500, options_offset = 0\<rparr>] \<and>
           transactionsGet \<lparr>request_access_token = secret, start_date = d1 - 30, end_date = d2,
                            options_count = 500, options_offset = 0\<rparr> = Inr r \<and>
           txs = transactions r"
  using assms
  by (auto simp add: get_transactions_POST_def get_transactions_catch_def Let_def
      split: option.splits sum.splits if_splits thrown.splits)

lemma transactions_GET_demo:
  "transactions_GET (\<lambda>t. t) (\<lambda>userId itemId. Inr (Some [1, 2])) (Some (str ''u1''))
     (demo_db (str ''00'')) = Response 200 (Transactions_only [2, 1 :: int])"
proof -
  have "str ''item-1'' \<noteq> []" by (simp add: str_def)
  then show ?thesis
    by (simp add: transactions_GET_def select_latest_def demo_db_def sortedTransactions_def)
qed

lemma database_error_saving:
  "includes_str (str ''Database error saving Plaid item: '' @ m) (str ''Database error'')"
proof -
  have "str ''Database error saving Plaid item: '' @ m =
      str ''Database error'' @ (str '' saving Plaid item: '' @ m)"
    by (simp add: str_def)
  then show ?thesis by (simp only: includes_str_prefix)
qed

lemma insert_handler_new_item:
  assumes "length key = 32" and "iv \<noteq> []" and "public_token \<noteq> []" and "uid \<noteq> []"
    and "exchange public_token = Inr (secret, iid)" and "db_failure db = None"
    and "\<not> list_ex (\<lambda>r. item_id r = iid) (plaid_items db)"
  shows "\<exists>c. encrypt G key iv secret = Inr c \<and>
     exchange_token_insert_POST G key exchange iv now (Some public_token) (Some uid) db =
       (Response 200 (Done (str ''Token exchanged and stored successfully'')),
        db\<lparr>plaid_items := plaid_items db @
          [\<lparr>item_id = iid, user_id = uid, access_token = c, created_at = now\<rparr>]\<rparr>)"
  using assms
  by (simp add: exchange_token_insert_POST_def or_else_def encrypt_hex_parts_eq encrypt_value
      insert_item_def)

lemma insert_handler_known_item:
  assumes "length key = 32" and "iv \<noteq> []" and "public_token \<noteq> []" and "uid \<noteq> []"
    and "exchange public_token = Inr (secret, iid)" and "db_failure db = None"
    and "list_ex (\<lambda>r. item_id r = iid) (plaid_items db)"
  shows "exchange_token_insert_POST G key exchange iv now (Some public_token) (Some uid) db =
       (Response 500 (Failure (str ''Database error storing token.'')), db)"
  using assms
  by (simp add: exchange_token_insert_POST_def or_else_def encrypt_hex_parts_eq encrypt_value
      insert_item_def exchange_token_insert_catch_def database_error_saving)

lemma filter_key_at_most_one:
  "distinct (map g xs) \<Longrightarrow> length (filter (\<lambda>r. g r = k) xs) \<le> 1"
proof (induction xs)
  case Nil
  then show ?case by simp
next
  case (Cons x xs)
  show ?case
  proof (cases "g x = k")
    case True
    with Cons.prems have "filter (\<lambda>r. g r = k) xs = []"
      by (auto simp add: filter_empty_conv image_iff)
    with True show ?thesis by simp
  next
    case False
    with Cons show ?thesis by simp
  qed
qed

lemma upsert_item_result:
  assumes "db_failure db = None" and "unique_item_ids db"
  shows "\<exists>db' r. upsert_item db now uid iid token = (None, db') \<and> db_failure db' = None \<and>
           unique_item_ids db' \<and> filter (\<lambda>r. item_id r = iid) (plaid_items db') = [r] \<and>
           user_id r = uid \<and> access_token r = token \<and>
           filter (\<lambda>r. item_id r \<noteq> iid) (plaid_items db') =
             filter (\<lambda>r. item_id r \<noteq> iid) (plaid_items db)"
proof (cases "list_ex (\<lambda>r. item_id r = iid) (plaid_items db)")
  case False
  then have none: "filter (\<lambda>r. item_id r = iid) (plaid_items db) = []"
    by (auto simp add: filter_empty_conv list_ex_iff)
  have "iid \<notin> set (map item_id (plaid_items db))"
    using False by (auto simp add: list_ex_iff)
  then have "unique_item_ids (db\<lparr>plaid_items := plaid_items db @
      [\<lparr>item_id = iid, user_id = uid, access_token = token, created_at = now\<rparr>]\<rparr>)"
    using assms(2) by (simp add: unique_item_ids_def)
  then show ?thesis
    using assms(1) False none by (simp add: upsert_item_def)
next
  case True
  let ?f = "\<lambda>r. if item_id r = iid then r\<lparr>user_id := uid, access_token := token\<rparr> else r"
  have ids: "map item_id (map ?f (plaid_items db)) = map item_id (plaid_items db)"
    by (induction "plaid_items db") auto
  have "length (filter (\<lambda>r. item_id r = iid) (plaid_items db)) \<le> 1"
    using assms(2) unfolding unique_item_ids_def by (rule filter_key_at_most_one)
  moreover have "filter (\<lambda>r. item_id r = iid) (plaid_items db) \<noteq> []"
    using True by (auto simp add: filter_empty_conv list_ex_iff)
  ultimately obtain r0 where r0: "filter (\<lambda>r. item_id r = iid) (plaid_items db) = [r0]"
    by (cases "filter (\<lambda>r. item_id r = iid) (plaid_items db)") auto
  have "r0 \<in> set (filter (\<lambda>r. item_id r = iid) (plaid_items db))"
    unfolding r0 by simp
  then have "item_id r0 = iid" by simp
  have same: "filter (\<lambda>r. item_id r = iid) (map ?f xs) = map ?f (filter (\<lambda>r. item_id r = iid) xs)"
    for xs by (induction xs) auto
  have other: "filter (\<lambda>r. item_id r \<noteq> iid) (map ?f xs) = filter (\<lambda>r. item_id r \<noteq> iid) xs"
    for xs by (induction xs) auto
  have "unique_item_ids (db\<lparr>plaid_items := map ?f (plaid_items db)\<rparr>)"
    using assms(2) by (simp add: unique_item_ids_def ids del: map_map)
  then show ?thesis
    using assms(1) True \<open>item_id r0 = iid\<close>
    by (simp add: upsert_item_def same other r0)
qed

lemma exchange_token_upsert:
  assumes "length key = 32" and "iv \<noteq> []" and "public_token \<noteq> []"
    and "exchange public_token = Inr (secret, iid)"
    and "db_failure db = None" and "unique_item_ids db"
  shows "\<exists>c db' r. encrypt G key iv secret = Inr c \<and>
     exchange_token_POST G key exchange iv now (Some uid) (Some public_token) db =
       (Response 200 (Stored iid (str ''Stored successfully'')), db') \<and>
     db_failure db' = None \<and> unique_item_ids db' \<and>
     filter (\<lambda>r. item_id r = iid) (plaid_items db') = [r] \<and>
     user_id r = uid \<and> access_token r = c \<and>
     filter (\<lambda>r. item_id r \<noteq> iid) (plaid_items db') =
       filter (\<lambda>r. item_id r \<noteq> iid) (plaid_items db)"
proof -
  let ?c = "to_hex (iv @ tag_bytes (gcm_tag G key iv (gcm_crypt G key iv (utf8_encode secret)))
           @ gcm_crypt G key iv (utf8_encode secret))"
  have e: "encrypt G key iv secret = Inr ?c"
    using assms(1,2) by (rule encrypt_value)
  obtain db' r where u: "upsert_item db now uid iid ?c = (None, db')"
    and rest: "db_failure db' = None" "unique_item_ids db'"
      "filter (\<lambda>r. item_id r = iid) (plaid_items db') = [r]"
      "user_id r = uid" "access_token r = ?c"
      "filter (\<lambda>r. item_id r \<noteq> iid) (plaid_items db') =
         filter (\<lambda>r. item_id r \<noteq> iid) (plaid_items db)"
    using upsert_item_result [OF assms(5,6), of now uid iid ?c] by blast
  have "exchange_token_POST G key exchange iv now (Some uid) (Some public_token) db =
       (Response 200 (Stored iid (str ''Stored successfully'')), db')"
    using assms(3,4) e u by (simp add: exchange_token_POST_def or_else_def)
  with e rest show ?thesis by blast
qed

lemma exchange_token_twice:
  assumes "length key = 32" and "iv1 \<noteq> []" and "iv2 \<noteq> []"
    and "token1 \<noteq> []" and "token2 \<noteq> []"
    and "exchange token1 = Inr (secret1, iid)" and "exchange token2 = Inr (secret2, iid)"
    and "db_failure db = None" and "unique_item_ids db"
  shows "\<exists>c2 db1 db2 r. encrypt G key iv2 secret2 = Inr c2 \<and>
     exchange_token_POST G key exchange iv1 now1 (Some uid1) (Some token1) db =
       (Response 200 (Stored iid (str ''Stored successfully'')), db1) \<and>
     exchange_token_POST G key exchange iv2 now2 (Some uid2) (Some token2) db1 =
       (Response 200 (Stored iid (str ''Stored successfully'')), db2) \<and>
     filter (\<lambda>r. item_id r = iid) (plaid_items db2) = [r] \<and>
     user_id r = uid2 \<and> access_token r = c2"
proof -
  obtain db1 where 1: "exchange_token_POST G key exchange iv1 now1 (Some uid1) (Some token1) db =
       (Response 200 (Stored iid (str ''Stored successfully'')), db1)"
    and ok: "db_failure db1 = None" "unique_item_ids db1"
    using exchange_token_upsert [where exchange = exchange and public_token = token1
        and key = key and iv = iv1 and secret = secret1 and iid = iid and db = db and G = G
        and now = now1 and uid = uid1] assms
    by blast
  obtain c2 db2 r where "encrypt G key iv2 secret2 = Inr c2"
    "exchange_token_POST G key exchange iv2 now2 (Some uid2) (Some token2) db1 =
       (Response 200 (Stored iid (str ''Stored successfully'')), db2)"
    "filter (\<lambda>r. item_id r = iid) (plaid_items db2) = [r]"
    "user_id r = uid2" "access_token r = c2"
    using exchange_token_upsert [where exchange = exchange and public_token = token2
        and key = key and iv = iv2 and secret = secret2 and iid = iid and db = db1 and G = G
        and now = now2 and uid = uid2] assms ok
    by blast
  with 1 show ?thesis by blast
qed

section \<open>The claims about the handlers\<close>

text \<open>
  Claim C2.  The code differs from the claim: a request of \<open>userA\<close> for an item that
  \<open>userB\<close> owns is answered with status 500 and the message of the store's error,
  not with 404, and so is a request for an item that is not in the table.  The query
  ends in \<open>.single()\<close>, which reports a result of no rows as an error, so the
  handler throws before it reaches the branch that answers 404.
  (\<open>other_owner_as_missing\<close>: the answer is the one for an item that does not exist,
  and \<open>decrypt\<close> and the Plaid client are not called.)
\<close>

theorem other_owner_gets_500:
  "get_transactions_POST demo_gcm demo_key
     (\<lambda>request. Inl (Js_error []) :: nat thrown + nat transactions_get_response) 0 0
     (Some (str ''userA'')) \<lparr>body_item_id = Some (str ''item-1'')\<rparr>
     \<lparr>plaid_items = [\<lparr>item_id = str ''item-1'', user_id = str ''userB'',
                       access_token = str ''00'', created_at = 0\<rparr>],
      db_failure = None\<rparr>
   = (Response 500
        (Failure (str ''Database error fetching token: JSON object requested, multiple (or no) rows returned'')),
      []) \<and>
   get_transactions_POST demo_gcm demo_key
     (\<lambda>request. Inl (Js_error []) :: nat thrown + nat transactions_get_response) 0 0
     (Some (str ''userA'')) \<lparr>body_item_id = Some (str ''item-1'')\<rparr>
     \<lparr>plaid_items = [], db_failure = None\<rparr>
   = (Response 500
        (Failure (str ''Database error fetching token: JSON object requested, multiple (or no) rows returned'')),
      [])"
proof -
  have m: "str ''Database error fetching token: '' @ db_message no_single_row =
      str ''Database error fetching token: JSON object requested, multiple (or no) rows returned''"
    by (simp add: no_single_row_def str_def)
  show ?thesis
    unfolding m [symmetric]
    by (intro conjI; rule no_row_response [where iid = "str ''item-1''"])
      (simp_all add: str_def)
qed

text \<open>
  Claim C3.  The code differs from the claim in the earlier exchange-token handler,
  which writes with \<open>insert\<close>: a second call whose exchange yields the same item
  id is answered with status 500, and the row keeps the owner and the credential of
  the first call.  The handler that writes with \<open>upsert\<close> does what the claim says
  (\<open>exchange_token_twice\<close>).
\<close>

theorem insert_handler_keeps_first_owner:
  "(case exchange_token_insert_POST demo_gcm demo_key demo_exchange demo_iv 1
           (Some (str ''pub-1'')) (Some (str ''u1'')) empty_db of
      (r1, db1) \<Rightarrow>
        (case exchange_token_insert_POST demo_gcm demo_key demo_exchange demo_iv 2
                (Some (str ''pub-2'')) (Some (str ''u2'')) db1 of
           (r2, db2) \<Rightarrow>
             r1 = Response 200 (Done (str ''Token exchanged and stored successfully'')) \<and>
             r2 = Response 500 (Failure (str ''Database error storing token.'')) \<and>
             map item_id (plaid_items db2) = [str ''item-1''] \<and>
             map user_id (plaid_items db2) = [str ''u1''] \<and>
             db2 = db1))"
proof -
  have ne: "demo_iv \<noteq> []" "str ''pub-1'' \<noteq> []" "str ''pub-2'' \<noteq> []"
    "str ''u1'' \<noteq> []" "str ''u2'' \<noteq> []"
    by (simp_all add: demo_iv_def str_def)
  obtain c where first: "exchange_token_insert_POST demo_gcm demo_key demo_exchange demo_iv 1
           (Some (str ''pub-1'')) (Some (str ''u1'')) empty_db =
       (Response 200 (Done (str ''Token exchanged and stored successfully'')),
        empty_db\<lparr>plaid_items := plaid_items empty_db @
          [\<lparr>item_id = str ''item-1'', user_id = str ''u1'', access_token = c, created_at = 1\<rparr>]\<rparr>)"
    using insert_handler_new_item [where G = demo_gcm and key = demo_key and iv = demo_iv
        and exchange = demo_exchange and public_token = "str ''pub-1''" and uid = "str ''u1''"
        and db = empty_db and iid = "str ''item-1''" and now = 1
        and secret = "str ''secret-'' @ str ''pub-1''"]
      demo_key_length ne
    by (auto simp add: demo_exchange_def empty_db_def)
  let ?db1 = "empty_db\<lparr>plaid_items := plaid_items empty_db @
          [\<lparr>item_id = str ''item-1'', user_id = str ''u1'', access_token = c, created_at = 1\<rparr>]\<rparr>"
  have second: "exchange_token_insert_POST demo_gcm demo_key demo_exchange demo_iv 2
           (Some (str ''pub-2'')) (Some (str ''u2'')) ?db1 =
       (Response 500 (Failure (str ''Database error storing token.'')), ?db1)"
    using demo_key_length ne
    by (intro insert_handler_known_item [where iid = "str ''item-1''"
          and secret = "str ''secret-'' @ str ''pub-2''"])
      (simp_all add: demo_exchange_def empty_db_def)
  show ?thesis
    unfolding first prod.case second by (simp add: empty_db_def)
qed

text \<open>
  Claim C7.  When the row is found and \<open>decrypt\<close> fails, the answer is status 500
  with the body \<open>{success: false, message}\<close>, where the message is a fixed text
  followed by the message of Node's error.  That message is one of five texts and
  depends on the kind of the failure only (and on the length of the tag or of the
  ciphertext field, when that length is refused): neither the key nor the ciphertext
  nor a stack trace is part of the body.  The Plaid client is not called.
\<close>

theorem decrypt_failure_response:
  assumes "body_item_id body = Some iid" and "iid \<noteq> []"
    and "select_token_single db iid uid = Inr token" and "token \<noteq> []"
    and "decrypt G key token = Inl e"
  shows "get_transactions_POST G key transactionsGet d1 d2 (Some uid) body db =
         (Response 500
            (Failure (str ''Failed to process access token: Decryption failed: '' @ crypto_message e)),
          [Decrypt_called token])"
proof -
  have "str ''Failed to process access token: '' @ decryption_failed e =
      str ''Failed to process access token: Decryption failed: '' @ crypto_message e"
    by (simp add: decryption_failed_def str_def)
  then show ?thesis
    using assms by (simp add: get_transactions_POST_def)
qed

text \<open>The theorem of C7 at a stored credential that is not hexadecimal text.\<close>

theorem decrypt_failure_response_witness:
  "body_item_id \<lparr>body_item_id = Some (str ''item-1'')\<rparr> = Some (str ''item-1'') \<and>
   str ''item-1'' \<noteq> [] \<and>
   select_token_single
     \<lparr>plaid_items = [\<lparr>item_id = str ''item-1'', user_id = str ''u1'',
                       access_token = str ''not-hex'', created_at = 0\<rparr>],
      db_failure = None\<rparr> (str ''item-1'') (str ''u1'') = Inr (str ''not-hex'') \<and>
   str ''not-hex'' \<noteq> [] \<and>
   decrypt demo_gcm demo_key (str ''not-hex'') = Inl Invalid_iv \<and>
   get_transactions_POST demo_gcm demo_key
     (\<lambda>request. Inl (Js_error []) :: nat thrown + nat transactions_get_response) 0 0
     (Some (str ''u1'')) \<lparr>body_item_id = Some (str ''item-1'')\<rparr>
     \<lparr>plaid_items = [\<lparr>item_id = str ''item-1'', user_id = str ''u1'',
                       access_token = str ''not-hex'', created_at = 0\<rparr>],
      db_failure = None\<rparr>
   = (Response 500
        (Failure (str ''Failed to process access token: Decryption failed: '' @
                  str ''Invalid initialization vector'')),
      [Decrypt_called (str ''not-hex'')])"
proof -
  let ?db = "\<lparr>plaid_items = [\<lparr>item_id = str ''item-1'', user_id = str ''u1'',
                       access_token = str ''not-hex'', created_at = 0\<rparr>],
      db_failure = None\<rparr>"
  have b: "body_item_id \<lparr>body_item_id = Some (str ''item-1'')\<rparr> = Some (str ''item-1'')"
    by simp
  have i: "str ''item-1'' \<noteq> []" by (simp add: str_def)
  have s: "select_token_single ?db (str ''item-1'') (str ''u1'') = Inr (str ''not-hex'')"
    by (simp add: select_token_single_def)
  have t: "str ''not-hex'' \<noteq> []" by (simp add: str_def)
  have d: "decrypt demo_gcm demo_key (str ''not-hex'') = Inl Invalid_iv"
    by (rule decrypt_not_hex)
  show ?thesis
    using decrypt_failure_response [OF b i s t d] b i s t d by simp
qed

text \<open>
  Claim C8, as amended.  A successful answer of \<open>POST /api/plaid/get-transactions\<close>
  carries the transactions, the accounts and the item of Plaid's response exactly as
  received.  A successful answer of the \<open>GET\<close> handler carries the transactions
  only, sorted by date, newest first: the same transactions (none added, dropped or
  altered), those of equal date in the order received.
\<close>

theorem fetch_response_contents:
  "(get_transactions_POST G key transactionsGet d1 d2 user body db = (Response st b, calls) \<and>
      success b \<longrightarrow>
      (\<exists>req r. transactionsGet req = Inr r \<and> st = 200 \<and>
         b = Transactions_accounts_item (transactions r) (accounts r) (item r))) \<and>
   (transactions_GET getTime fetch session db' = Response st' b' \<and> success b' \<longrightarrow>
      (\<exists>uid iid txs. fetch uid iid = Inr (Some txs) \<and> st' = 200 \<and>
         b' = Transactions_only (sortedTransactions getTime txs))) \<and>
   mset (sortedTransactions getTime ts) = mset ts \<and>
   sorted (map (\<lambda>t. - getTime t) (sortedTransactions getTime ts)) \<and>
   filter (\<lambda>t. getTime t = k) (sortedTransactions getTime ts) = filter (\<lambda>t. getTime t = k) ts"
proof (intro conjI impI)
  assume "get_transactions_POST G key transactionsGet d1 d2 user body db = (Response st b, calls) \<and>
      success b"
  then show "\<exists>req r. transactionsGet req = Inr r \<and> st = 200 \<and>
         b = Transactions_accounts_item (transactions r) (accounts r) (item r)"
    using get_transactions_POST_success [of G key transactionsGet d1 d2 user body db st b calls]
    by simp
next
  assume "transactions_GET getTime fetch session db' = Response st' b' \<and> success b'"
  then show "\<exists>uid iid txs. fetch uid iid = Inr (Some txs) \<and> st' = 200 \<and>
         b' = Transactions_only (sortedTransactions getTime txs)"
    using transactions_GET_success [of getTime fetch session db' st' b'] by simp
qed (rule sortedTransactions_facts)+

text \<open>
  Claim C8 as stated fails for the \<open>GET\<close> handler: transactions received in the
  order of the dates 1, 2 are returned in the order 2, 1.
\<close>

theorem transactions_GET_reorders:
  "transactions_GET (\<lambda>t. t) (\<lambda>userId itemId. Inr (Some [1, 2])) (Some (str ''u1''))
     (demo_db (str ''00'')) = Response 200 (Transactions_only [2, 1 :: int]) \<and>
   [2, 1] \<noteq> [1, 2 :: int]"
  using transactions_GET_demo by simp

text \<open>The theorem of C8 at a successful POST and a successful GET.\<close>

theorem fetch_response_contents_witness:
  "(\<exists>c. get_transactions_POST demo_gcm demo_key demo_plaid 19800 19800
          (Some (str ''u1'')) \<lparr>body_item_id = Some (str ''item-1'')\<rparr> (demo_db c) =
        (Response 200 (Transactions_accounts_item [1, 2] [3] 4),
         [Decrypt_called c,
          Transactions_get_called \<lparr>request_access_token = str ''secret-abc'', start_date = 19770,
            end_date = 19800, options_count = 500, options_offset = 0\<rparr>]) \<and>
        success (Transactions_accounts_item [1, 2] [3] (4 :: int)) \<and>
        (\<exists>req r. demo_plaid req = Inr r \<and>
           Transactions_accounts_item [1, 2] [3] 4 =
             Transactions_accounts_item (transactions r) (accounts r) (item r))) \<and>
   transactions_GET (\<lambda>t. t) (\<lambda>userId itemId. Inr (Some [1, 2])) (Some (str ''u1''))
     (demo_db (str ''00'')) = Response 200 (Transactions_only [2, 1 :: int]) \<and>
   success (Transactions_only [2, 1 :: int]) \<and>
   Transactions_only [2, 1 :: int] = Transactions_only (sortedTransactions (\<lambda>t. t) [1, 2])"
proof -
  obtain c where r: "get_transactions_POST demo_gcm demo_key demo_plaid 19800 19800
          (Some (str ''u1'')) \<lparr>body_item_id = Some (str ''item-1'')\<rparr> (demo_db c) =
        (Response 200 (Transactions_accounts_item [1, 2] [3] 4),
         [Decrypt_called c,
          Transactions_get_called \<lparr>request_access_token = str ''secret-abc'', start_date = 19770,
            end_date = 19800, options_count = 500, options_offset = 0\<rparr>])"
    using demo_run by blast
  have s: "success (Transactions_accounts_item [1, 2] [3] (4 :: int))" by simp
  note T = fetch_response_contents [of demo_gcm demo_key demo_plaid 19800 19800 "Some (str ''u1'')"
      "\<lparr>body_item_id = Some (str ''item-1'')\<rparr>" "demo_db c" 200
      "Transactions_accounts_item [1, 2] [3] 4" _ "\<lambda>t. t" "\<lambda>userId itemId. Inr (Some [1, 2])"
      "Some (str ''u1'')" "demo_db (str ''00'')" 200 "Transactions_only [2, 1]"]
  from T r s have p: "\<exists>req r. demo_plaid req = Inr r \<and>
           Transactions_accounts_item [1, 2] [3] 4 =
             Transactions_accounts_item (transactions r) (accounts r) (item r)"
    by blast
  have g: "Transactions_only [2, 1 :: int] = Transactions_only (sortedTransactions (\<lambda>t. t) [1, 2])"
    by (simp add: sortedTransactions_def)
  show ?thesis
    using r s p g transactions_GET_demo by (intro conjI exI [of _ c]) simp_all
qed

text \<open>
  Claim C9.  For a user without a row in \<open>plaid_items\<close> (and a store that answers),
  \<open>GET /api/user/plaid-items\<close> returns status 200 with \<open>success: true\<close> and
  \<open>item_id: null\<close>.
\<close>

theorem no_item_is_success:
  assumes "db_failure db = None" and "\<forall>r \<in> set (plaid_items db). user_id r \<noteq> uid"
  shows "plaid_items_GET (Some uid) db = Response 200 (Item_id None)"
proof -
  have "filter (\<lambda>r. user_id r = uid) (plaid_items db) = []"
    using assms(2) by (simp add: filter_empty_conv)
  then show ?thesis
    using assms(1) by (simp add: plaid_items_GET_def select_latest_def)
qed

text \<open>The theorem of C9 at a table whose only row belongs to another user.\<close>

theorem no_item_is_success_witness:
  "db_failure \<lparr>plaid_items = [\<lparr>item_id = str ''item-1'', user_id = str ''u1'',
                       access_token = str ''00'', created_at = 0\<rparr>], db_failure = None\<rparr> = None \<and>
   list_all (\<lambda>r. user_id r \<noteq> str ''u2'')
     (plaid_items \<lparr>plaid_items = [\<lparr>item_id = str ''item-1'', user_id = str ''u1'',
                       access_token = str ''00'', created_at = 0\<rparr>], db_failure = None\<rparr>) \<and>
   (plaid_items_GET (Some (str ''u2''))
     \<lparr>plaid_items = [\<lparr>item_id = str ''item-1'', user_id = str ''u1'',
                       access_token = str ''00'', created_at = 0\<rparr>], db_failure = None\<rparr>
     :: nat response) = Response 200 (Item_id None)"
proof -
  let ?db = "\<lparr>plaid_items = [\<lparr>item_id = str ''item-1'', user_id = str ''u1'',
                       access_token = str ''00'', created_at = 0\<rparr>], db_failure = None\<rparr>"
  have f: "db_failure ?db = None" by simp
  have n: "\<forall>r \<in> set (plaid_items ?db). user_id r \<noteq> str ''u2''" by (simp add: str_def)
  show ?thesis
    using no_item_is_success [OF f n] f n by (simp add: list_all_iff)
qed

text \<open>
  Claim C10, as amended.  Every call of the Plaid client that the POST handler of
  get-transactions makes asks for the days from 30 days before the current date to
  the current date, for at most 500 transactions from offset 0; the body of the
  request has no part in it.  The transactions that the caller receives are those of
  Plaid's answer to that one request: at most 500 when Plaid returns no more
  transactions than the count it is asked for.
\<close>

theorem fixed_window:
  assumes "get_transactions_POST G key transactionsGet d1 d2 user body db = (resp, calls)"
  shows "(\<forall>req. Transactions_get_called req \<in> set calls \<longrightarrow>
            start_date req = d1 - 30 \<and> end_date req = d2 \<and>
            options_count req = 500 \<and> options_offset req = 0) \<and>
         (\<forall>req. Transactions_sync_called req \<notin> set calls) \<and>
         (\<forall>st txs accs it. resp = Response st (Transactions_accounts_item txs accs it) \<longrightarrow>
            (\<exists>secret r.
               transactionsGet \<lparr>request_access_token = secret, start_date = d1 - 30,
                 end_date = d2, options_count = 500, options_offset = 0\<rparr> = Inr r \<and>
               txs = transactions r)) \<and>
         ((\<forall>req r. transactionsGet req = Inr r \<longrightarrow> length (transactions r) \<le> options_count req)
           \<longrightarrow> (\<forall>st txs accs it. resp = Response st (Transactions_accounts_item txs accs it)
                 \<longrightarrow> length txs \<le> 500))"
proof (intro conjI)
  show "\<forall>req. Transactions_get_called req \<in> set calls \<longrightarrow>
            start_date req = d1 - 30 \<and> end_date req = d2 \<and>
            options_count req = 500 \<and> options_offset req = 0"
    using assms
    by (auto simp add: get_transactions_POST_def Let_def
        split: option.splits sum.splits if_splits)
next
  show "\<forall>req. Transactions_sync_called req \<notin> set calls"
    using assms
    by (auto simp add: get_transactions_POST_def Let_def
        split: option.splits sum.splits if_splits)
next
  show one: "\<forall>st txs accs it. resp = Response st (Transactions_accounts_item txs accs it) \<longrightarrow>
            (\<exists>secret r.
               transactionsGet \<lparr>request_access_token = secret, start_date = d1 - 30,
                 end_date = d2, options_count = 500, options_offset = 0\<rparr> = Inr r \<and>
               txs = transactions r)"
    using assms get_transactions_POST_one_request [of G key transactionsGet d1 d2 user body db]
    by blast
  show "(\<forall>req r. transactionsGet req = Inr r \<longrightarrow> length (transactions r) \<le> options_count req)
           \<longrightarrow> (\<forall>st txs accs it. resp = Response st (Transactions_accounts_item txs accs it)
                 \<longrightarrow> length txs \<le> 500)"
  proof (intro allI impI)
    fix st txs accs it
    assume h: "\<forall>req r. transactionsGet req = Inr r \<longrightarrow> length (transactions r) \<le> options_count req"
      and r: "resp = Response st (Transactions_accounts_item txs accs it)"
    from one r obtain secret r' where
      "transactionsGet \<lparr>request_access_token = secret, start_date = d1 - 30, end_date = d2,
         options_count = 500, options_offset = 0\<rparr> = Inr r'" and "txs = transactions r'"
      by blast
    with h have "length txs \<le> options_count \<lparr>request_access_token = secret, start_date = d1 - 30,
        end_date = d2, options_count = 500, options_offset = 0\<rparr>"
      by blast
    then show "length txs \<le> 500" by simp
  qed
qed

text \<open>
  Claim C10 as stated fails for the refresh handler: with the credential stored for
  the user it calls \<open>transactionsSync\<close>, and the request consists of the credential
  and the cursor \<open>latest\<close>, with no start date, end date, count or offset.
\<close>

theorem refresh_POST_sends_no_window:
  "refresh_POST (\<lambda>token. Inr () :: nat thrown + unit)
     (\<lambda>request. Inr () :: nat thrown + unit) (Some (str ''u1'')) (demo_db (str ''00'')) =
     (Response 200 (Done (str ''Transactions synced successfully'')),
      [Item_get_called (str ''00''),
       Transactions_sync_called \<lparr>sync_access_token = str ''00'', cursor = str ''latest''\<rparr>])"
proof -
  have "str ''item-1'' \<noteq> []" "str ''00'' \<noteq> []" by (simp_all add: str_def)
  then show ?thesis
    by (simp add: refresh_POST_def select_latest_def demo_db_def)
qed

text \<open>The theorem of C10 at a request on day 19800 that succeeds.\<close>

theorem fixed_window_witness:
  "(\<exists>c. get_transactions_POST demo_gcm demo_key demo_plaid 19800 19800
          (Some (str ''u1'')) \<lparr>body_item_id = Some (str ''item-1'')\<rparr> (demo_db c) =
        (Response 200 (Transactions_accounts_item [1, 2] [3] 4),
         [Decrypt_called c,
          Transactions_get_called \<lparr>request_access_token = str ''secret-abc'', start_date = 19770,
            end_date = 19800, options_count = 500, options_offset = 0\<rparr>])) \<and>
   (\<forall>req. case demo_plaid req of
            Inl e \<Rightarrow> False
          | Inr r \<Rightarrow> length (transactions r) \<le> options_count req) \<and>
   length [1, 2 :: int] \<le> 500"
proof -
  obtain c where r: "get_transactions_POST demo_gcm demo_key demo_plaid 19800 19800
          (Some (str ''u1'')) \<lparr>body_item_id = Some (str ''item-1'')\<rparr> (demo_db c) =
        (Response 200 (Transactions_accounts_item [1, 2] [3] 4),
         [Decrypt_called c,
          Transactions_get_called \<lparr>request_access_token = str ''secret-abc'', start_date = 19770,
            end_date = 19800, options_count = 500, options_offset = 0\<rparr>])"
    using demo_run by blast
  have h: "\<forall>req r. demo_plaid req = Inr r \<longrightarrow> length (transactions r) \<le> options_count req"
    by (auto simp add: demo_plaid_def)
  have h': "\<forall>req. case demo_plaid req of
            Inl e \<Rightarrow> False
          | Inr r \<Rightarrow> length (transactions r) \<le> options_count req"
    by (simp add: demo_plaid_def)
  from fixed_window [OF r] h have "length [1, 2 :: int] \<le> 500" by blast
  with r h' show ?thesis by blast
qed

end
